theory Spec2Isabelle
  imports Main "HOL-Library.Word"
begin

section \<open>The CrowdfundingV2 contract\<close>

text \<open>
  The contract's storage, its seven state-changing entry points and its read-only accessors.
  A \<^verbatim>\<open>uint256\<close> is a natural number below \<open>2 ^ 256\<close>; Solidity 0.8 checks every
  addition and reverts with a panic on overflow, which the model writes out.  An address is
  a 160-bit word.  A reverted call leaves the storage as it was: an entry point returns
  \<open>Inl\<close> the error and no storage, or \<open>Inr\<close> the storage after the call.  A failed
  \<^verbatim>\<open>require\<close> is \<open>Revert\<close> with its message, a failed arithmetic or bounds check is
  \<open>Panic\<close>.  The events the contract emits are kept as a log in the storage record.  The
  ether the contract holds is not stored by the contract; whether a transfer of value
  succeeds is decided by the recipient and the balance, and is an input of the model.
\<close>

type_synonym address = "160 word"

datatype error = Revert string | Panic

record Milestone =
  description :: string
  amount :: nat
  completed :: bool
  released :: bool
  votesFor :: nat
  votesAgainst :: nat

record Campaign =
  creator :: address
  title :: string
  description :: string
  category :: string
  imageUrl :: string
  goalAmount :: nat
  deadline :: nat
  amountRaised :: nat
  withdrawn :: bool
  exists :: bool
  milestoneCount :: nat

datatype Event =
    CampaignCreated nat address string string nat nat nat
  | ContributionReceived nat address nat
  | MilestoneCompleted nat nat
  | MilestoneVoted nat nat address bool nat
  | MilestoneReleased nat nat nat
  | FundsWithdrawn nat address nat
  | RefundIssued nat address nat

record storage =
  campaignCounter :: nat
  campaigns :: "nat \<Rightarrow> Campaign"
  contributions :: "nat \<Rightarrow> address \<Rightarrow> nat"
  milestones :: "nat \<Rightarrow> nat \<Rightarrow> Milestone"
  milestoneVotes :: "nat \<Rightarrow> nat \<Rightarrow> address \<Rightarrow> bool"
  campaignIds :: "nat list"
  events :: "Event list"

text \<open>The value of a mapping at a key that was never written: every field zero.\<close>

definition zeroCampaign :: Campaign where
  "zeroCampaign = \<lparr> creator = 0, title = [], description = [], category = [],
     imageUrl = [], goalAmount = 0, deadline = 0, amountRaised = 0, withdrawn = False,
     exists = False, milestoneCount = 0 \<rparr>"

definition zeroMilestone :: Milestone where
  "zeroMilestone = \<lparr> Milestone.description = [], amount = 0, completed = False,
     released = False, votesFor = 0, votesAgainst = 0 \<rparr>"

text \<open>The storage after the constructor.\<close>

definition initial :: storage where
  "initial = \<lparr> campaignCounter = 0,
      campaigns = (\<lambda>_. zeroCampaign),
      contributions = (\<lambda>_ _. 0),
      milestones = (\<lambda>_ _. zeroMilestone),
      milestoneVotes = (\<lambda>_ _ _. False),
      campaignIds = [],
      events = [] \<rparr>"

text \<open>Checked \<^verbatim>\<open>uint256\<close> addition.\<close>

definition checked_add :: "nat \<Rightarrow> nat \<Rightarrow> error + nat" where
  "checked_add a b = (if a + b < 2 ^ 256 then Inr (a + b) else Inl Panic)"

subsection \<open>createCampaign\<close>

text \<open>The loop that sums \<^verbatim>\<open>_milestoneAmounts\<close>, requiring each amount to be positive.\<close>

fun sumMilestoneAmounts :: "nat list \<Rightarrow> nat \<Rightarrow> error + nat" where
  "sumMilestoneAmounts [] totalMilestoneAmount = Inr totalMilestoneAmount"
| "sumMilestoneAmounts (a # as) totalMilestoneAmount =
     (if \<not> 0 < a then Inl (Revert ''Milestone amount must be > 0'')
      else case checked_add totalMilestoneAmount a of
             Inl e \<Rightarrow> Inl e
           | Inr total' \<Rightarrow> sumMilestoneAmounts as total')"

text \<open>The block \<^verbatim>\<open>// Validate milestones\<close>: it checks the plan only if there are descriptions.\<close>

definition validateMilestones :: "string list \<Rightarrow> nat list \<Rightarrow> nat \<Rightarrow> error + unit" where
  "validateMilestones milestoneDescriptions milestoneAmounts goal =
     (if 0 < length milestoneDescriptions then
        if length milestoneDescriptions \<noteq> length milestoneAmounts
        then Inl (Revert ''Milestone arrays must match'')
        else case sumMilestoneAmounts milestoneAmounts 0 of
               Inl e \<Rightarrow> Inl e
             | Inr totalMilestoneAmount \<Rightarrow>
                 if totalMilestoneAmount \<noteq> goal
                 then Inl (Revert ''Milestone amounts must equal goal'')
                 else Inr ()
      else Inr ())"

text \<open>
  The loop that stores the milestones of the new campaign, from index \<open>i\<close> on.  It runs over
  the descriptions and reads the amount at the same index; reading past the end of the
  amounts is a panic.
\<close>

fun storeMilestones ::
  "string list \<Rightarrow> nat list \<Rightarrow> nat \<Rightarrow> (nat \<Rightarrow> Milestone) \<Rightarrow> error + (nat \<Rightarrow> Milestone)" where
  "storeMilestones [] as i ms = Inr ms"
| "storeMilestones (d # ds) [] i ms = Inl Panic"
| "storeMilestones (d # ds) (a # as) i ms =
     storeMilestones ds as (Suc i)
       (ms(i := \<lparr> Milestone.description = d, amount = a, completed = False,
                  released = False, votesFor = 0, votesAgainst = 0 \<rparr>))"

text \<open>
  The deadline is \<^verbatim>\<open>block.timestamp + (_durationInDays * 1 days)\<close>, a day being 86400
  seconds; the product cannot overflow since the duration is at most 365.
\<close>

definition createCampaign ::
  "nat \<Rightarrow> address \<Rightarrow> string \<Rightarrow> string \<Rightarrow> string \<Rightarrow> string \<Rightarrow> nat \<Rightarrow> nat \<Rightarrow>
   string list \<Rightarrow> nat list \<Rightarrow> storage \<Rightarrow> error + nat \<times> storage" where
  "createCampaign now sender ttl descr cat img goal durationInDays
       milestoneDescriptions milestoneAmounts s =
     (if \<not> 0 < goal then Inl (Revert ''Goal amount must be greater than 0'')
      else if \<not> 0 < durationInDays then Inl (Revert ''Duration must be at least 1 day'')
      else if \<not> durationInDays \<le> 365 then Inl (Revert ''Duration cannot exceed 365 days'')
      else if \<not> 0 < length ttl then Inl (Revert ''Title cannot be empty'')
      else if \<not> 0 < length descr then Inl (Revert ''Description cannot be empty'')
      else case validateMilestones milestoneDescriptions milestoneAmounts goal of
        Inl e \<Rightarrow> Inl e
      | Inr _ \<Rightarrow>
      (case checked_add now (durationInDays * 86400) of
        Inl e \<Rightarrow> Inl e
      | Inr dl \<Rightarrow>
      (case checked_add (campaignCounter s) 1 of
        Inl e \<Rightarrow> Inl e
      | Inr newCampaignId \<Rightarrow>
      (case storeMilestones milestoneDescriptions milestoneAmounts 0
              (milestones s newCampaignId) of
        Inl e \<Rightarrow> Inl e
      | Inr ms \<Rightarrow>
          Inr (newCampaignId,
               s\<lparr> campaignCounter := newCampaignId,
                 campaigns := (campaigns s)(newCampaignId :=
                   \<lparr> creator = sender, title = ttl, description = descr, category = cat,
                     imageUrl = img, goalAmount = goal, deadline = dl, amountRaised = 0,
                     withdrawn = False, exists = True,
                     milestoneCount = length milestoneDescriptions \<rparr>),
                 milestones := (milestones s)(newCampaignId := ms),
                 campaignIds := campaignIds s @ [newCampaignId],
                 events := events s @
                   [CampaignCreated newCampaignId sender ttl cat goal dl
                      (length milestoneDescriptions)] \<rparr>)))))"

subsection \<open>contribute\<close>

definition contribute :: "nat \<Rightarrow> address \<Rightarrow> nat \<Rightarrow> nat \<Rightarrow> storage \<Rightarrow> error + storage" where
  "contribute now sender val campaignId s =
     (let campaign = campaigns s campaignId in
      if \<not> exists campaign then Inl (Revert ''Campaign does not exist'')
      else if \<not> now < deadline campaign then Inl (Revert ''Campaign has ended'')
      else if \<not> 0 < val then Inl (Revert ''Contribution must be greater than 0'')
      else case checked_add (contributions s campaignId sender) val of
        Inl e \<Rightarrow> Inl e
      | Inr contributed \<Rightarrow>
      (case checked_add (amountRaised campaign) val of
        Inl e \<Rightarrow> Inl e
      | Inr raised \<Rightarrow>
          Inr (s\<lparr> contributions := (contributions s)(campaignId :=
                   (contributions s campaignId)(sender := contributed)),
                 campaigns := (campaigns s)(campaignId :=
                   campaign\<lparr> amountRaised := raised \<rparr>),
                 events := events s @ [ContributionReceived campaignId sender val] \<rparr>)))"

subsection \<open>The milestone path\<close>

definition completeMilestone :: "address \<Rightarrow> nat \<Rightarrow> nat \<Rightarrow> storage \<Rightarrow> error + storage" where
  "completeMilestone sender campaignId milestoneId s =
     (let campaign = campaigns s campaignId;
          milestone = milestones s campaignId milestoneId in
      if \<not> exists campaign then Inl (Revert ''Campaign does not exist'')
      else if sender \<noteq> creator campaign
        then Inl (Revert ''Only campaign creator can call this'')
      else if \<not> milestoneId < milestoneCount campaign then Inl (Revert ''Invalid milestone'')
      else if \<not> goalAmount campaign \<le> amountRaised campaign
        then Inl (Revert ''Goal not reached'')
      else if completed milestone then Inl (Revert ''Milestone already completed'')
      else if 0 < milestoneId \<and> \<not> released (milestones s campaignId (milestoneId - 1))
        then Inl (Revert ''Previous milestone must be released first'')
      else Inr (s\<lparr> milestones := (milestones s)(campaignId :=
                     (milestones s campaignId)(milestoneId :=
                        milestone\<lparr> completed := True \<rparr>)),
                  events := events s @ [MilestoneCompleted campaignId milestoneId] \<rparr>))"

definition voteOnMilestone ::
  "address \<Rightarrow> nat \<Rightarrow> nat \<Rightarrow> bool \<Rightarrow> storage \<Rightarrow> error + storage" where
  "voteOnMilestone sender campaignId milestoneId approve s =
     (let campaign = campaigns s campaignId;
          milestone = milestones s campaignId milestoneId;
          voteWeight = contributions s campaignId sender in
      if \<not> exists campaign then Inl (Revert ''Campaign does not exist'')
      else if \<not> 0 < contributions s campaignId sender
        then Inl (Revert ''Only contributors can vote'')
      else if \<not> milestoneId < milestoneCount campaign then Inl (Revert ''Invalid milestone'')
      else if \<not> completed milestone then Inl (Revert ''Milestone not completed yet'')
      else if released milestone then Inl (Revert ''Milestone already released'')
      else if milestoneVotes s campaignId milestoneId sender
        then Inl (Revert ''Already voted'')
      else case (if approve then checked_add (votesFor milestone) voteWeight
                 else checked_add (votesAgainst milestone) voteWeight) of
        Inl e \<Rightarrow> Inl e
      | Inr tally \<Rightarrow>
          Inr (s\<lparr> milestoneVotes := (milestoneVotes s)(campaignId :=
                   (milestoneVotes s campaignId)(milestoneId :=
                      (milestoneVotes s campaignId milestoneId)(sender := True))),
                 milestones := (milestones s)(campaignId :=
                   (milestones s campaignId)(milestoneId :=
                      (if approve then milestone\<lparr> votesFor := tally \<rparr>
                       else milestone\<lparr> votesAgainst := tally \<rparr>))),
                 events := events s @
                   [MilestoneVoted campaignId milestoneId sender approve voteWeight] \<rparr>))"

text \<open>
  The external call \<^verbatim>\<open>payable(to).call{value: amount}("")\<close> hands control to the
  recipient, which may call back into the contract before it returns.  It is a parameter of
  the value-moving entry points: given the recipient, the amount and the storage at the
  moment of the call, it returns whether the call succeeded and the storage it left.
\<close>

type_synonym transfer = "address \<Rightarrow> nat \<Rightarrow> storage \<Rightarrow> bool \<times> storage"

definition releaseMilestone ::
  "transfer \<Rightarrow> address \<Rightarrow> nat \<Rightarrow> nat \<Rightarrow> storage \<Rightarrow> error + storage" where
  "releaseMilestone send sender campaignId milestoneId s =
     (let campaign = campaigns s campaignId;
          milestone = milestones s campaignId milestoneId in
      if \<not> exists campaign then Inl (Revert ''Campaign does not exist'')
      else if sender \<noteq> creator campaign
        then Inl (Revert ''Only campaign creator can call this'')
      else if \<not> milestoneId < milestoneCount campaign then Inl (Revert ''Invalid milestone'')
      else if \<not> goalAmount campaign \<le> amountRaised campaign
        then Inl (Revert ''Goal not reached'')
      else if \<not> completed milestone then Inl (Revert ''Milestone not completed'')
      else if released milestone then Inl (Revert ''Already released'')
      else if \<not> votesAgainst milestone < votesFor milestone
        then Inl (Revert ''Milestone not approved by contributors'')
      else
        let s1 = s\<lparr> milestones := (milestones s)(campaignId :=
                      (milestones s campaignId)(milestoneId :=
                         milestone\<lparr> released := True \<rparr>)) \<rparr>;
            amt = amount milestone;
            (success, s2) = send (creator campaign) amt s1
        in if \<not> success then Inl (Revert ''Transfer failed'')
           else Inr (s2\<lparr> events := events s2 @
                       [MilestoneReleased campaignId milestoneId amt] \<rparr>))"

subsection \<open>withdrawFunds and refund\<close>

definition withdrawFunds :: "transfer \<Rightarrow> nat \<Rightarrow> address \<Rightarrow> nat \<Rightarrow> storage \<Rightarrow> error + storage" where
  "withdrawFunds send now sender campaignId s =
     (let campaign = campaigns s campaignId in
      if \<not> exists campaign then Inl (Revert ''Campaign does not exist'')
      else if \<not> deadline campaign \<le> now then Inl (Revert ''Campaign still active'')
      else if sender \<noteq> creator campaign
        then Inl (Revert ''Only campaign creator can call this'')
      else if withdrawn campaign then Inl (Revert ''Funds already withdrawn'')
      else if \<not> goalAmount campaign \<le> amountRaised campaign
        then Inl (Revert ''Funding goal not reached'')
      else if \<not> 0 < amountRaised campaign then Inl (Revert ''No funds to withdraw'')
      else if milestoneCount campaign \<noteq> 0
        then Inl (Revert ''Use milestone release for this campaign'')
      else
        let s1 = s\<lparr> campaigns := (campaigns s)(campaignId :=
                      campaign\<lparr> withdrawn := True \<rparr>) \<rparr>;
            amt = amountRaised campaign;
            (success, s2) = send (creator campaign) amt s1
        in if \<not> success then Inl (Revert ''Transfer failed'')
           else Inr (s2\<lparr> events := events s2 @
                       [FundsWithdrawn campaignId (creator (campaigns s2 campaignId)) amt] \<rparr>))"

definition refund :: "transfer \<Rightarrow> nat \<Rightarrow> address \<Rightarrow> nat \<Rightarrow> storage \<Rightarrow> error + storage" where
  "refund send now sender campaignId s =
     (let campaign = campaigns s campaignId;
          contributedAmount = contributions s campaignId sender in
      if \<not> exists campaign then Inl (Revert ''Campaign does not exist'')
      else if \<not> deadline campaign \<le> now then Inl (Revert ''Campaign still active'')
      else if \<not> amountRaised campaign < goalAmount campaign
        then Inl (Revert ''Campaign was successful, no refunds'')
      else if \<not> 0 < contributedAmount then Inl (Revert ''No contribution to refund'')
      else
        let s1 = s\<lparr> contributions := (contributions s)(campaignId :=
                      (contributions s campaignId)(sender := 0)) \<rparr>;
            (success, s2) = send sender contributedAmount s1
        in if \<not> success then Inl (Revert ''Refund transfer failed'')
           else Inr (s2\<lparr> events := events s2 @
                       [RefundIssued campaignId sender contributedAmount] \<rparr>))"

subsection \<open>View functions\<close>

definition getCampaign :: "nat \<Rightarrow> storage \<Rightarrow> error + Campaign" where
  "getCampaign campaignId s =
     (if \<not> exists (campaigns s campaignId) then Inl (Revert ''Campaign does not exist'')
      else Inr (campaigns s campaignId))"

definition getMilestone :: "nat \<Rightarrow> nat \<Rightarrow> storage \<Rightarrow> error + Milestone" where
  "getMilestone campaignId milestoneId s = Inr (milestones s campaignId milestoneId)"

definition getAllMilestones :: "nat \<Rightarrow> storage \<Rightarrow> error + Milestone list" where
  "getAllMilestones campaignId s =
     (if \<not> exists (campaigns s campaignId) then Inl (Revert ''Campaign does not exist'')
      else Inr (map (milestones s campaignId)
                  [0 ..< milestoneCount (campaigns s campaignId)]))"

definition getContribution :: "nat \<Rightarrow> address \<Rightarrow> storage \<Rightarrow> nat" where
  "getContribution campaignId contributor s = contributions s campaignId contributor"

definition isGoalReached :: "nat \<Rightarrow> storage \<Rightarrow> error + bool" where
  "isGoalReached campaignId s =
     (if \<not> exists (campaigns s campaignId) then Inl (Revert ''Campaign does not exist'')
      else Inr (goalAmount (campaigns s campaignId) \<le> amountRaised (campaigns s campaignId)))"

definition getTotalCampaigns :: "storage \<Rightarrow> nat" where
  "getTotalCampaigns s = length (campaignIds s)"

definition getAllCampaignIds :: "storage \<Rightarrow> nat list" where
  "getAllCampaignIds s = campaignIds s"

definition hasVoted :: "nat \<Rightarrow> nat \<Rightarrow> address \<Rightarrow> storage \<Rightarrow> bool" where
  "hasVoted campaignId milestoneId voter s = milestoneVotes s campaignId milestoneId voter"

subsection \<open>Transactions\<close>

text \<open>
  A call of an entry point, with what the recipient of its transfer does when it receives
  the value: a list of calls back into the contract, each with its own sender, and whether
  it accepts the value in the end.  A nested call that reverts leaves the storage as it
  found it and the recipient carries on.
\<close>

datatype call =
    CreateCampaign string string string string nat nat "string list" "nat list"
  | Contribute nat nat
  | CompleteMilestone nat nat
  | VoteOnMilestone nat nat bool
  | ReleaseMilestone nat nat "(address \<times> call) list" bool
  | WithdrawFunds nat "(address \<times> call) list" bool
  | Refund nat "(address \<times> call) list" bool

fun exec :: "nat \<Rightarrow> address \<Rightarrow> call \<Rightarrow> storage \<Rightarrow> error + storage"
and execs :: "nat \<Rightarrow> (address \<times> call) list \<Rightarrow> storage \<Rightarrow> storage" where
  "exec now sender (CreateCampaign ttl descr cat img goal days ds as) s =
     (case createCampaign now sender ttl descr cat img goal days ds as s of
        Inl e \<Rightarrow> Inl e
      | Inr (newCampaignId, s') \<Rightarrow> Inr s')"
| "exec now sender (Contribute campaignId val) s = contribute now sender val campaignId s"
| "exec now sender (CompleteMilestone campaignId milestoneId) s =
     completeMilestone sender campaignId milestoneId s"
| "exec now sender (VoteOnMilestone campaignId milestoneId approve) s =
     voteOnMilestone sender campaignId milestoneId approve s"
| "exec now sender (ReleaseMilestone campaignId milestoneId cs ok) s =
     releaseMilestone (\<lambda>to amt s1. (ok, execs now cs s1)) sender campaignId milestoneId s"
| "exec now sender (WithdrawFunds campaignId cs ok) s =
     withdrawFunds (\<lambda>to amt s1. (ok, execs now cs s1)) now sender campaignId s"
| "exec now sender (Refund campaignId cs ok) s =
     refund (\<lambda>to amt s1. (ok, execs now cs s1)) now sender campaignId s"
| "execs now [] s = s"
| "execs now ((a, c) # cs) s =
     execs now cs (case exec now a c s of Inl e \<Rightarrow> s | Inr s' \<Rightarrow> s')"

text \<open>The storages the contract can be in: any sequence of successful transactions.\<close>

inductive reachable :: "storage \<Rightarrow> bool" where
  reachable_initial: "reachable initial"
| reachable_step: "reachable s \<Longrightarrow> exec now sender c s = Inr s' \<Longrightarrow> reachable s'"

text \<open>
  A sequence of transactions, each with its block timestamp and sender.  A transaction that
  reverts leaves the storage as it was.
\<close>

fun run :: "(nat \<times> address \<times> call) list \<Rightarrow> storage \<Rightarrow> storage" where
  "run [] s = s"
| "run ((now, sender, c) # txs) s =
     run txs (case exec now sender c s of Inl e \<Rightarrow> s | Inr s' \<Rightarrow> s')"

section \<open>Properties of the storage\<close>

text \<open>
  What every reachable storage satisfies: identifiers are handed out in sequence, a campaign
  that exists has a positive goal, unwritten slots hold the zero value, and the milestone
  flags and votes are consistent with the order the entry points enforce.
\<close>

definition wellformed :: "storage \<Rightarrow> bool" where
  "wellformed s \<longleftrightarrow>
     (\<forall>c. exists (campaigns s c) \<longrightarrow>
          c \<le> campaignCounter s \<and> 0 < goalAmount (campaigns s c)) \<and>
     (\<forall>c. \<not> exists (campaigns s c) \<longrightarrow> campaigns s c = zeroCampaign) \<and>
     (\<forall>c m. milestoneCount (campaigns s c) \<le> m \<longrightarrow> milestones s c m = zeroMilestone) \<and>
     (\<forall>c m. released (milestones s c m) \<longrightarrow> completed (milestones s c m)) \<and>
     (\<forall>c m. completed (milestones s c (Suc m)) \<longrightarrow> released (milestones s c m)) \<and>
     (\<forall>c m. completed (milestones s c m) \<longrightarrow>
          goalAmount (campaigns s c) \<le> amountRaised (campaigns s c)) \<and>
     (\<forall>c m a. milestoneVotes s c m a \<longrightarrow>
          completed (milestones s c m) \<and> 0 < contributions s c a)"

text \<open>
  What a later storage keeps of an earlier one, for the campaigns that exist in the earlier
  one, when every transaction in between ran at block timestamp \<open>now\<close> or later.
\<close>

definition evolves :: "nat \<Rightarrow> storage \<Rightarrow> storage \<Rightarrow> bool" where
  "evolves now s s' \<longleftrightarrow>
     (\<forall>c. exists (campaigns s c) \<longrightarrow>
        exists (campaigns s' c) \<and>
        creator (campaigns s' c) = creator (campaigns s c) \<and>
        goalAmount (campaigns s' c) = goalAmount (campaigns s c) \<and>
        deadline (campaigns s' c) = deadline (campaigns s c) \<and>
        milestoneCount (campaigns s' c) = milestoneCount (campaigns s c) \<and>
        amountRaised (campaigns s c) \<le> amountRaised (campaigns s' c) \<and>
        (withdrawn (campaigns s c) \<longrightarrow> withdrawn (campaigns s' c)) \<and>
        (\<forall>m. amount (milestones s' c m) = amount (milestones s c m) \<and>
             (completed (milestones s c m) \<longrightarrow> completed (milestones s' c m)) \<and>
             (released (milestones s c m) \<longrightarrow> released (milestones s' c m))) \<and>
        (\<forall>m a. milestoneVotes s c m a \<longrightarrow> milestoneVotes s' c m a) \<and>
        (deadline (campaigns s c) \<le> now \<longrightarrow>
           amountRaised (campaigns s' c) = amountRaised (campaigns s c) \<and>
           (\<forall>a. contributions s' c a \<le> contributions s c a)))"

text \<open>The sum of a campaign's contribution entries, over all addresses.\<close>

definition totalContributions :: "storage \<Rightarrow> nat \<Rightarrow> nat" where
  "totalContributions s c = (\<Sum>a\<in>UNIV. contributions s c a)"

text \<open>The amounts that refunds have zeroed, as the \<^verbatim>\<open>RefundIssued\<close> events record them.\<close>

fun refundedBy :: "nat \<Rightarrow> Event \<Rightarrow> nat" where
  "refundedBy c (RefundIssued c' a v) = (if c' = c then v else 0)"
| "refundedBy c _ = 0"

definition totalRefunded :: "storage \<Rightarrow> nat \<Rightarrow> nat" where
  "totalRefunded s c = sum_list (map (refundedBy c) (events s))"

text \<open>
  By how much a campaign's \<^verbatim>\<open>amountRaised\<close> exceeds its contribution entries and the
  refunds it has issued.
\<close>

definition ledgerGap :: "storage \<Rightarrow> nat \<Rightarrow> int" where
  "ledgerGap s c =
     int (amountRaised (campaigns s c)) - int (totalContributions s c) - int (totalRefunded s c)"

section \<open>Three campaigns\<close>

text \<open>
  The parties and the storages of the scenarios the properties below are tried on: a
  campaign with goal 10 and no milestones that is funded by two contributors, the same
  campaign funded half, and a campaign with the milestone plan 4 + 6 whose first milestone
  is completed and voted on by both contributors.  A recipient that makes no calls of its
  own and accepts the value is \<open>accepting\<close>, one that refuses it is \<open>rejecting\<close>.
\<close>

definition carol :: address where "carol = 3"
definition alice :: address where "alice = 1"
definition bob :: address where "bob = 2"

definition accepting :: transfer where
  "accepting to amt s = (True, s)"

definition rejecting :: transfer where
  "rejecting to amt s = (False, s)"

definition fundedCampaign :: storage where
  "fundedCampaign = run
     [(0, carol, CreateCampaign ''Well'' ''Dig a well'' ''Community'' [] 10 30 [] []),
      (1, alice, Contribute 1 4),
      (1, bob, Contribute 1 6)] initial"

definition halfFundedCampaign :: storage where
  "halfFundedCampaign = run
     [(0, carol, CreateCampaign ''Well'' ''Dig a well'' ''Community'' [] 10 30 [] []),
      (1, alice, Contribute 1 5)] initial"

definition milestoneCampaign :: storage where
  "milestoneCampaign = run
     [(0, carol, CreateCampaign ''Well'' ''Dig a well'' ''Community'' [] 10 30
          [''Survey'', ''Drilling''] [4, 6]),
      (1, bob, Contribute 1 6),
      (1, alice, Contribute 1 4),
      (2, carol, CompleteMilestone 1 0),
      (3, bob, VoteOnMilestone 1 0 True),
      (3, alice, VoteOnMilestone 1 0 False)] initial"

text \<open>
  The three campaigns after the creator has withdrawn, after the contributor has been
  refunded, and after the first milestone has been released.  The deadline of each is
  \<open>30 * 86400 = 2592000\<close>.
\<close>

definition afterWithdrawal :: storage where
  "afterWithdrawal = run [(2592000, carol, WithdrawFunds 1 [] True)] fundedCampaign"

definition afterRefund :: storage where
  "afterRefund = run [(2592000, alice, Refund 1 [] True)] halfFundedCampaign"

definition afterRelease :: storage where
  "afterRelease = run [(4, carol, ReleaseMilestone 1 0 [] True)] milestoneCampaign"

text \<open>
  The milestone campaign after the second milestone has been completed, and after it has
  been approved and released as well.
\<close>

definition secondCompleted :: storage where
  "secondCompleted = run [(5, carol, CompleteMilestone 1 1)] afterRelease"

definition bothReleased :: storage where
  "bothReleased = run
     [(6, bob, VoteOnMilestone 1 1 True),
      (7, carol, ReleaseMilestone 1 1 [] True)] secondCompleted"


section \<open>How each entry point changes the storage\<close>

lemma storeMilestones_Inr:
  "storeMilestones ds as i ms = Inr ms' \<Longrightarrow>
     ms' j = (if i \<le> j \<and> j < i + length ds
              then \<lparr> Milestone.description = ds ! (j - i), amount = as ! (j - i),
                     completed = False, released = False, votesFor = 0, votesAgainst = 0 \<rparr>
              else ms j)"
proof (induction ds as i ms rule: storeMilestones.induct)
  case (1 as i ms)
  then show ?case by auto
next
  case (2 d ds i ms)
  then show ?case by simp
next
  case (3 d ds a as i ms)
  from "3.prems" have st: "storeMilestones ds as (Suc i)
       (ms(i := \<lparr> Milestone.description = d, amount = a, completed = False,
                  released = False, votesFor = 0, votesAgainst = 0 \<rparr>)) = Inr ms'" by simp
  from "3.IH"[OF st] show ?case by (auto simp: nth_Cons')
qed

lemma wellformed_initial: "wellformed initial"
  by (simp add: wellformed_def initial_def zeroCampaign_def zeroMilestone_def)

lemma evolves_refl: "evolves now s s"
  by (simp add: evolves_def)

lemma evolves_trans: "evolves now s s' \<Longrightarrow> evolves now s' s'' \<Longrightarrow> evolves now s s''"
  unfolding evolves_def
  apply (intro allI impI)
  subgoal for c
    apply (drule spec[of _ c])+
    apply (auto intro: order_trans)
    done
  done

lemma evolves_earlier: "t0 \<le> t \<Longrightarrow> evolves t s s' \<Longrightarrow> evolves t0 s s'"
  unfolding evolves_def
  apply (intro allI impI)
  subgoal for c
    apply (drule spec[of _ c])
    apply auto
    done
  done

lemma wellformedI:
  assumes "\<And>c. exists (campaigns s c) \<Longrightarrow> c \<le> campaignCounter s \<and> 0 < goalAmount (campaigns s c)"
    and "\<And>c. \<not> exists (campaigns s c) \<Longrightarrow> campaigns s c = zeroCampaign"
    and "\<And>c m. milestoneCount (campaigns s c) \<le> m \<Longrightarrow> milestones s c m = zeroMilestone"
    and "\<And>c m. released (milestones s c m) \<Longrightarrow> completed (milestones s c m)"
    and "\<And>c m. completed (milestones s c (Suc m)) \<Longrightarrow> released (milestones s c m)"
    and "\<And>c m. completed (milestones s c m) \<Longrightarrow>
          goalAmount (campaigns s c) \<le> amountRaised (campaigns s c)"
    and "\<And>c m a. milestoneVotes s c m a \<Longrightarrow>
          completed (milestones s c m) \<and> 0 < contributions s c a"
  shows "wellformed s"
  unfolding wellformed_def using assms by blast

lemma wf_counter: "wellformed s \<Longrightarrow> exists (campaigns s c) \<Longrightarrow> c \<le> campaignCounter s"
  and wf_goal: "wellformed s \<Longrightarrow> exists (campaigns s c) \<Longrightarrow> 0 < goalAmount (campaigns s c)"
  and wf_zero: "wellformed s \<Longrightarrow> \<not> exists (campaigns s c) \<Longrightarrow> campaigns s c = zeroCampaign"
  and wf_range: "wellformed s \<Longrightarrow> milestoneCount (campaigns s c) \<le> m \<Longrightarrow> milestones s c m = zeroMilestone"
  and wf_released: "wellformed s \<Longrightarrow> released (milestones s c m) \<Longrightarrow> completed (milestones s c m)"
  and wf_order: "wellformed s \<Longrightarrow> completed (milestones s c (Suc m)) \<Longrightarrow> released (milestones s c m)"
  and wf_funded: "wellformed s \<Longrightarrow> completed (milestones s c m) \<Longrightarrow>
          goalAmount (campaigns s c) \<le> amountRaised (campaigns s c)"
  and wf_voted: "wellformed s \<Longrightarrow> milestoneVotes s c m a \<Longrightarrow>
          completed (milestones s c m) \<and> 0 < contributions s c a"
  unfolding wellformed_def by blast+

lemma zero_simps [simp]:
  "\<not> exists zeroCampaign" "milestoneCount zeroCampaign = 0" "amountRaised zeroCampaign = 0"
  "\<not> completed zeroMilestone" "\<not> released zeroMilestone"
  by (simp_all add: zeroCampaign_def zeroMilestone_def)


lemma sum_contributions_upd:
  fixes f :: "address \<Rightarrow> nat"
  shows "(\<Sum>a\<in>UNIV. (f(x := v)) a) + f x = (\<Sum>a\<in>UNIV. f a) + v"
proof -
  have "(\<Sum>a\<in>UNIV. (f(x := v)) a) = v + (\<Sum>a\<in>UNIV - {x}. (f(x := v)) a)"
    using sum.remove[of UNIV x "f(x := v)"] by simp
  moreover have "(\<Sum>a\<in>UNIV. f a) = f x + (\<Sum>a\<in>UNIV - {x}. f a)"
    using sum.remove[of UNIV x f] by simp
  moreover have "(\<Sum>a\<in>UNIV - {x}. (f(x := v)) a) = (\<Sum>a\<in>UNIV - {x}. f a)"
    by (rule sum.cong) auto
  ultimately show ?thesis by simp
qed

lemma totalContributions_upd:
  assumes "contributions s' c = (contributions s c)(x := v)"
  shows "int (totalContributions s' c) =
           int (totalContributions s c) - int (contributions s c x) + int v"
proof -
  have "totalContributions s' c + contributions s c x = totalContributions s c + v"
    unfolding totalContributions_def assms by (rule sum_contributions_upd)
  then show ?thesis by linarith
qed

lemma totalRefunded_emit:
  "events s' = events s @ [e] \<Longrightarrow> totalRefunded s' c = totalRefunded s c + refundedBy c e"
  by (simp add: totalRefunded_def)

lemma createCampaign_Inr:
  assumes "createCampaign now sender ttl descr cat img goal days ds as s = Inr (n, s')"
  obtains ms where "n = campaignCounter s + 1" "0 < goal" "0 < days" "days \<le> 365" "ttl \<noteq> []" "descr \<noteq> []"
    "validateMilestones ds as goal = Inr ()"
    "now + days * 86400 < 2 ^ 256" "campaignCounter s + 1 < 2 ^ 256"
    "storeMilestones ds as 0 (milestones s (campaignCounter s + 1)) = Inr ms"
    "s' = s\<lparr> campaignCounter := campaignCounter s + 1,
             campaigns := (campaigns s)(campaignCounter s + 1 :=
               \<lparr> creator = sender, title = ttl, description = descr, category = cat,
                 imageUrl = img, goalAmount = goal, deadline = now + days * 86400,
                 amountRaised = 0, withdrawn = False, exists = True,
                 milestoneCount = length ds \<rparr>),
             milestones := (milestones s)(campaignCounter s + 1 := ms),
             campaignIds := campaignIds s @ [campaignCounter s + 1],
             events := events s @
               [CampaignCreated (campaignCounter s + 1) sender ttl cat goal
                  (now + days * 86400) (length ds)] \<rparr>"
  using assms
  by (auto simp: createCampaign_def checked_add_def split: if_splits sum.splits)

lemma createCampaign_step:
  assumes wf: "wellformed s"
    and ok: "createCampaign now sender ttl descr cat img goal days ds as s = Inr (k, s')"
  shows "wellformed s' \<and> evolves t s s' \<and> (\<forall>c. ledgerGap s' c = ledgerGap s c)"
proof -
  define n where "n = campaignCounter s + 1"
  from ok obtain ms where g: "0 < goal"
    and st: "storeMilestones ds as 0 (milestones s n) = Inr ms"
    and s': "s' = s\<lparr> campaignCounter := n,
             campaigns := (campaigns s)(n :=
               \<lparr> creator = sender, title = ttl, description = descr, category = cat,
                 imageUrl = img, goalAmount = goal, deadline = now + days * 86400,
                 amountRaised = 0, withdrawn = False, exists = True,
                 milestoneCount = length ds \<rparr>),
             milestones := (milestones s)(n := ms),
             campaignIds := campaignIds s @ [n],
             events := events s @
               [CampaignCreated n sender ttl cat goal (now + days * 86400) (length ds)] \<rparr>"
    unfolding n_def by (rule createCampaign_Inr)
  have fresh: "\<not> exists (campaigns s n)"
    using wf_counter[OF wf, of n] by (auto simp: n_def)
  then have zc: "campaigns s n = zeroCampaign" by (rule wf_zero[OF wf])
  have zm: "milestones s n m = zeroMilestone" for m
    by (rule wf_range[OF wf]) (simp add: zc)
  have ms: "ms m = (if m < length ds
              then \<lparr> Milestone.description = ds ! m, amount = as ! m,
                     completed = False, released = False, votesFor = 0, votesAgainst = 0 \<rparr>
              else zeroMilestone)" for m
    using storeMilestones_Inr[OF st, of m] by (simp add: zm)
  have novote: "\<not> milestoneVotes s n m a" for m a
    using wf_voted[OF wf, of n m a] by (auto simp: zm)
  have "wellformed s'"
  proof (rule wellformedI)
    fix c show "exists (campaigns s' c) \<Longrightarrow> c \<le> campaignCounter s' \<and> 0 < goalAmount (campaigns s' c)"
      using wf_counter[OF wf, of c] wf_goal[OF wf, of c] g
      by (auto simp: s' n_def split: if_splits)
  next
    fix c show "\<not> exists (campaigns s' c) \<Longrightarrow> campaigns s' c = zeroCampaign"
      using wf_zero[OF wf, of c] by (auto simp: s' split: if_splits)
  next
    fix c m show "milestoneCount (campaigns s' c) \<le> m \<Longrightarrow> milestones s' c m = zeroMilestone"
      using wf_range[OF wf, of c m] by (auto simp: s' ms split: if_splits)
  next
    fix c m show "released (milestones s' c m) \<Longrightarrow> completed (milestones s' c m)"
      using wf_released[OF wf, of c m] by (auto simp: s' ms split: if_splits)
  next
    fix c m show "completed (milestones s' c (Suc m)) \<Longrightarrow> released (milestones s' c m)"
      using wf_order[OF wf, of c m] by (auto simp: s' ms split: if_splits)
  next
    fix c m show "completed (milestones s' c m) \<Longrightarrow>
          goalAmount (campaigns s' c) \<le> amountRaised (campaigns s' c)"
      using wf_funded[OF wf, of c m] by (auto simp: s' ms split: if_splits)
  next
    fix c m a show "milestoneVotes s' c m a \<Longrightarrow>
          completed (milestones s' c m) \<and> 0 < contributions s' c a"
      using wf_voted[OF wf, of c m a] novote[of m a] by (auto simp: s')
  qed
  moreover have "evolves t s s'"
    unfolding evolves_def using fresh by (auto simp: s')
  moreover have "ledgerGap s' c = ledgerGap s c" for c
    using zc by (simp add: ledgerGap_def totalContributions_def totalRefunded_def s')
  ultimately show ?thesis by blast
qed

lemma contribute_Inr:
  assumes "contribute now sender val cid s = Inr s'"
  obtains "exists (campaigns s cid)" "now < deadline (campaigns s cid)" "0 < val"
    "contributions s cid sender + val < 2 ^ 256" "amountRaised (campaigns s cid) + val < 2 ^ 256"
    "s' = s\<lparr> contributions := (contributions s)(cid :=
                (contributions s cid)(sender := contributions s cid sender + val)),
             campaigns := (campaigns s)(cid :=
                (campaigns s cid)\<lparr> amountRaised := amountRaised (campaigns s cid) + val \<rparr>),
             events := events s @ [ContributionReceived cid sender val] \<rparr>"
  using assms
  by (auto simp: contribute_def Let_def checked_add_def split: if_splits)

lemma contribute_step:
  assumes wf: "wellformed s" and ok: "contribute now sender val cid s = Inr s'"
  shows "wellformed s' \<and> evolves now s s' \<and> (\<forall>c. ledgerGap s' c = ledgerGap s c)"
proof -
  from ok have g: "exists (campaigns s cid)" "now < deadline (campaigns s cid)"
    and s': "s' = s\<lparr> contributions := (contributions s)(cid :=
                (contributions s cid)(sender := contributions s cid sender + val)),
             campaigns := (campaigns s)(cid :=
                (campaigns s cid)\<lparr> amountRaised := amountRaised (campaigns s cid) + val \<rparr>),
             events := events s @ [ContributionReceived cid sender val] \<rparr>"
    by (auto elim: contribute_Inr)
  have "wellformed s'"
  proof (rule wellformedI)
    fix c show "exists (campaigns s' c) \<Longrightarrow> c \<le> campaignCounter s' \<and> 0 < goalAmount (campaigns s' c)"
      using wf_counter[OF wf, of c] wf_goal[OF wf, of c] g by (auto simp: s' split: if_splits)
  next
    fix c show "\<not> exists (campaigns s' c) \<Longrightarrow> campaigns s' c = zeroCampaign"
      using wf_zero[OF wf, of c] g by (auto simp: s' split: if_splits)
  next
    fix c m show "milestoneCount (campaigns s' c) \<le> m \<Longrightarrow> milestones s' c m = zeroMilestone"
      using wf_range[OF wf, of c m] by (auto simp: s' split: if_splits)
  next
    fix c m show "released (milestones s' c m) \<Longrightarrow> completed (milestones s' c m)"
      using wf_released[OF wf, of c m] by (simp add: s')
  next
    fix c m show "completed (milestones s' c (Suc m)) \<Longrightarrow> released (milestones s' c m)"
      using wf_order[OF wf, of c m] by (simp add: s')
  next
    fix c m show "completed (milestones s' c m) \<Longrightarrow>
          goalAmount (campaigns s' c) \<le> amountRaised (campaigns s' c)"
      using wf_funded[OF wf, of c m] by (auto simp: s')
  next
    fix c m a show "milestoneVotes s' c m a \<Longrightarrow>
          completed (milestones s' c m) \<and> 0 < contributions s' c a"
      using wf_voted[OF wf, of c m a] by (auto simp: s')
  qed
  moreover have "evolves now s s'"
    unfolding evolves_def using g by (auto simp: s')
  moreover have "ledgerGap s' c = ledgerGap s c" for c
  proof (cases "c = cid")
    case True
    have "int (totalContributions s' cid) = int (totalContributions s cid) + int val"
      using totalContributions_upd[of s' cid s sender "contributions s cid sender + val"]
      by (simp add: s')
    moreover have "totalRefunded s' cid = totalRefunded s cid"
      using totalRefunded_emit[of s' s "ContributionReceived cid sender val" cid]
      by (simp add: s')
    ultimately show ?thesis by (simp add: ledgerGap_def True) (simp add: s')
  next
    case False
    then show ?thesis
      by (simp add: ledgerGap_def totalContributions_def totalRefunded_def s')
  qed
  ultimately show ?thesis by blast
qed


lemma completeMilestone_Inr:
  assumes "completeMilestone sender cid mid s = Inr s'"
  obtains "exists (campaigns s cid)" "sender = creator (campaigns s cid)"
    "mid < milestoneCount (campaigns s cid)"
    "goalAmount (campaigns s cid) \<le> amountRaised (campaigns s cid)"
    "\<not> completed (milestones s cid mid)"
    "0 < mid \<longrightarrow> released (milestones s cid (mid - 1))"
    "s' = s\<lparr> milestones := (milestones s)(cid :=
                (milestones s cid)(mid := (milestones s cid mid)\<lparr> completed := True \<rparr>)),
             events := events s @ [MilestoneCompleted cid mid] \<rparr>"
  using assms
  by (auto simp: completeMilestone_def Let_def split: if_splits)

lemma completeMilestone_step:
  assumes wf: "wellformed s" and ok: "completeMilestone sender cid mid s = Inr s'"
  shows "wellformed s' \<and> evolves t s s' \<and> (\<forall>c. ledgerGap s' c = ledgerGap s c)"
proof -
  from ok have g: "exists (campaigns s cid)" "mid < milestoneCount (campaigns s cid)"
      "goalAmount (campaigns s cid) \<le> amountRaised (campaigns s cid)"
      "0 < mid \<longrightarrow> released (milestones s cid (mid - 1))"
    and s': "s' = s\<lparr> milestones := (milestones s)(cid :=
                (milestones s cid)(mid := (milestones s cid mid)\<lparr> completed := True \<rparr>)),
             events := events s @ [MilestoneCompleted cid mid] \<rparr>"
    by (auto elim: completeMilestone_Inr)
  have "wellformed s'"
  proof (rule wellformedI)
    fix c show "exists (campaigns s' c) \<Longrightarrow> c \<le> campaignCounter s' \<and> 0 < goalAmount (campaigns s' c)"
      using wf_counter[OF wf, of c] wf_goal[OF wf, of c] g by (auto simp: s' split: if_splits)
  next
    fix c show "\<not> exists (campaigns s' c) \<Longrightarrow> campaigns s' c = zeroCampaign"
      using wf_zero[OF wf, of c] g by (auto simp: s' split: if_splits)
  next
    fix c m show "milestoneCount (campaigns s' c) \<le> m \<Longrightarrow> milestones s' c m = zeroMilestone"
      using wf_range[OF wf, of c m] g by (auto simp: s' split: if_splits)
  next
    fix c m show "released (milestones s' c m) \<Longrightarrow> completed (milestones s' c m)"
      using wf_released[OF wf, of c m] g by (auto simp: s' split: if_splits)
  next
    fix c m show "completed (milestones s' c (Suc m)) \<Longrightarrow> released (milestones s' c m)"
      using wf_order[OF wf, of c m] g by (auto simp: s' split: if_splits)
  next
    fix c m show "completed (milestones s' c m) \<Longrightarrow>
          goalAmount (campaigns s' c) \<le> amountRaised (campaigns s' c)"
      using wf_funded[OF wf, of c m] g by (auto simp: s' split: if_splits)
  next
    fix c m a show "milestoneVotes s' c m a \<Longrightarrow>
          completed (milestones s' c m) \<and> 0 < contributions s' c a"
      using wf_voted[OF wf, of c m a] g by (auto simp: s' split: if_splits)
  qed
  moreover have "evolves t s s'"
    unfolding evolves_def by (auto simp: s')
  moreover have "ledgerGap s' c = ledgerGap s c" for c
    by (simp add: ledgerGap_def totalContributions_def totalRefunded_def s')
  ultimately show ?thesis by blast
qed

lemma voteOnMilestone_Inr:
  assumes "voteOnMilestone sender cid mid approve s = Inr s'"
  obtains "exists (campaigns s cid)" "0 < contributions s cid sender"
    "mid < milestoneCount (campaigns s cid)"
    "completed (milestones s cid mid)" "\<not> released (milestones s cid mid)"
    "\<not> milestoneVotes s cid mid sender"
    "s' = s\<lparr> milestoneVotes := (milestoneVotes s)(cid :=
                (milestoneVotes s cid)(mid := (milestoneVotes s cid mid)(sender := True))),
             milestones := (milestones s)(cid :=
                (milestones s cid)(mid :=
                   (if approve
                    then (milestones s cid mid)\<lparr> votesFor :=
                           votesFor (milestones s cid mid) + contributions s cid sender \<rparr>
                    else (milestones s cid mid)\<lparr> votesAgainst :=
                           votesAgainst (milestones s cid mid) + contributions s cid sender \<rparr>))),
             events := events s @
               [MilestoneVoted cid mid sender approve (contributions s cid sender)] \<rparr>"
  using assms
  by (auto simp: voteOnMilestone_def Let_def checked_add_def split: if_splits)

lemma voteOnMilestone_step:
  assumes wf: "wellformed s" and ok: "voteOnMilestone sender cid mid approve s = Inr s'"
  shows "wellformed s' \<and> evolves t s s' \<and> (\<forall>c. ledgerGap s' c = ledgerGap s c)"
proof -
  from ok have g: "exists (campaigns s cid)" "0 < contributions s cid sender"
      "mid < milestoneCount (campaigns s cid)"
      "completed (milestones s cid mid)" "\<not> released (milestones s cid mid)"
    and s': "s' = s\<lparr> milestoneVotes := (milestoneVotes s)(cid :=
                (milestoneVotes s cid)(mid := (milestoneVotes s cid mid)(sender := True))),
             milestones := (milestones s)(cid :=
                (milestones s cid)(mid :=
                   (if approve
                    then (milestones s cid mid)\<lparr> votesFor :=
                           votesFor (milestones s cid mid) + contributions s cid sender \<rparr>
                    else (milestones s cid mid)\<lparr> votesAgainst :=
                           votesAgainst (milestones s cid mid) + contributions s cid sender \<rparr>))),
             events := events s @
               [MilestoneVoted cid mid sender approve (contributions s cid sender)] \<rparr>"
    by (auto elim: voteOnMilestone_Inr)
  have "wellformed s'"
  proof (rule wellformedI)
    fix c show "exists (campaigns s' c) \<Longrightarrow> c \<le> campaignCounter s' \<and> 0 < goalAmount (campaigns s' c)"
      using wf_counter[OF wf, of c] wf_goal[OF wf, of c] g by (auto simp: s' split: if_splits)
  next
    fix c show "\<not> exists (campaigns s' c) \<Longrightarrow> campaigns s' c = zeroCampaign"
      using wf_zero[OF wf, of c] g by (auto simp: s' split: if_splits)
  next
    fix c m show "milestoneCount (campaigns s' c) \<le> m \<Longrightarrow> milestones s' c m = zeroMilestone"
      using wf_range[OF wf, of c m] g by (auto simp: s' split: if_splits)
  next
    fix c m show "released (milestones s' c m) \<Longrightarrow> completed (milestones s' c m)"
      using wf_released[OF wf, of c m] g by (auto simp: s' split: if_splits)
  next
    fix c m show "completed (milestones s' c (Suc m)) \<Longrightarrow> released (milestones s' c m)"
      using wf_order[OF wf, of c m] g by (auto simp: s' split: if_splits)
  next
    fix c m show "completed (milestones s' c m) \<Longrightarrow>
          goalAmount (campaigns s' c) \<le> amountRaised (campaigns s' c)"
      using wf_funded[OF wf, of c m] g by (auto simp: s' split: if_splits)
  next
    fix c m a show "milestoneVotes s' c m a \<Longrightarrow>
          completed (milestones s' c m) \<and> 0 < contributions s' c a"
      using wf_voted[OF wf, of c m a] g by (auto simp: s' split: if_splits)
  qed
  moreover have "evolves t s s'"
    unfolding evolves_def by (auto simp: s')
  moreover have "ledgerGap s' c = ledgerGap s c" for c
    by (simp add: ledgerGap_def totalContributions_def totalRefunded_def s')
  ultimately show ?thesis by blast
qed


lemma wellformed_events [simp]: "wellformed (s\<lparr>events := e\<rparr>) = wellformed s"
  by (simp add: wellformed_def)

lemma evolves_events [simp]: "evolves t s (s'\<lparr>events := e\<rparr>) = evolves t s s'"
  by (simp add: evolves_def)

lemma ledgerGap_emit:
  "ledgerGap (s\<lparr>events := events s @ [e]\<rparr>) c = ledgerGap s c - int (refundedBy c e)"
  by (simp add: ledgerGap_def totalContributions_def totalRefunded_def)

lemma withdrawFunds_Inr:
  assumes "withdrawFunds send now sender cid s = Inr s'"
  obtains s2 where "exists (campaigns s cid)" "deadline (campaigns s cid) \<le> now"
    "sender = creator (campaigns s cid)" "\<not> withdrawn (campaigns s cid)"
    "goalAmount (campaigns s cid) \<le> amountRaised (campaigns s cid)"
    "0 < amountRaised (campaigns s cid)" "milestoneCount (campaigns s cid) = 0"
    "send (creator (campaigns s cid)) (amountRaised (campaigns s cid))
       (s\<lparr> campaigns := (campaigns s)(cid := (campaigns s cid)\<lparr> withdrawn := True \<rparr>) \<rparr>)
     = (True, s2)"
    "s' = s2\<lparr> events := events s2 @
        [FundsWithdrawn cid (creator (campaigns s2 cid)) (amountRaised (campaigns s cid))] \<rparr>"
  using assms
  by (auto simp: withdrawFunds_def Let_def split: if_splits prod.splits)

lemma withdrawFunds_step:
  assumes wf: "wellformed s" and ok: "withdrawFunds send now sender cid s = Inr s'"
    and send: "\<And>to amt s1. wellformed s1 \<Longrightarrow>
        wellformed (snd (send to amt s1)) \<and> evolves now s1 (snd (send to amt s1)) \<and>
        (\<forall>c. ledgerGap (snd (send to amt s1)) c = ledgerGap s1 c)"
  shows "wellformed s' \<and> evolves now s s' \<and> (\<forall>c. ledgerGap s' c = ledgerGap s c)"
proof -
  define s1 where "s1 = s\<lparr> campaigns := (campaigns s)(cid :=
     (campaigns s cid)\<lparr> withdrawn := True \<rparr>) \<rparr>"
  from ok obtain s2 where g: "exists (campaigns s cid)"
    and tr: "send (creator (campaigns s cid)) (amountRaised (campaigns s cid)) s1 = (True, s2)"
    and s': "s' = s2\<lparr> events := events s2 @
        [FundsWithdrawn cid (creator (campaigns s2 cid)) (amountRaised (campaigns s cid))] \<rparr>"
    unfolding s1_def by (rule withdrawFunds_Inr)
  have wf1: "wellformed s1"
  proof (rule wellformedI)
    fix c show "exists (campaigns s1 c) \<Longrightarrow> c \<le> campaignCounter s1 \<and> 0 < goalAmount (campaigns s1 c)"
      using wf_counter[OF wf, of c] wf_goal[OF wf, of c] g by (auto simp: s1_def split: if_splits)
  next
    fix c show "\<not> exists (campaigns s1 c) \<Longrightarrow> campaigns s1 c = zeroCampaign"
      using wf_zero[OF wf, of c] g by (auto simp: s1_def split: if_splits)
  next
    fix c m show "milestoneCount (campaigns s1 c) \<le> m \<Longrightarrow> milestones s1 c m = zeroMilestone"
      using wf_range[OF wf, of c m] g by (auto simp: s1_def split: if_splits)
  next
    fix c m show "released (milestones s1 c m) \<Longrightarrow> completed (milestones s1 c m)"
      using wf_released[OF wf, of c m] g by (auto simp: s1_def split: if_splits)
  next
    fix c m show "completed (milestones s1 c (Suc m)) \<Longrightarrow> released (milestones s1 c m)"
      using wf_order[OF wf, of c m] g by (auto simp: s1_def split: if_splits)
  next
    fix c m show "completed (milestones s1 c m) \<Longrightarrow>
          goalAmount (campaigns s1 c) \<le> amountRaised (campaigns s1 c)"
      using wf_funded[OF wf, of c m] g by (auto simp: s1_def split: if_splits)
  next
    fix c m a show "milestoneVotes s1 c m a \<Longrightarrow>
          completed (milestones s1 c m) \<and> 0 < contributions s1 c a"
      using wf_voted[OF wf, of c m a]  g by (auto simp: s1_def split: if_splits)
  qed
  have ev1: "evolves now s s1"
    unfolding evolves_def by (auto simp: s1_def)
  have gap1: "ledgerGap s1 c = ledgerGap s c" for c
    by (simp add: ledgerGap_def totalContributions_def totalRefunded_def s1_def)
  from send[OF wf1, of "creator (campaigns s cid)" "amountRaised (campaigns s cid)"] tr
  have wf2: "wellformed s2" and ev2: "evolves now s1 s2"
    and gap2: "\<And>c. ledgerGap s2 c = ledgerGap s1 c" by simp_all
  have "wellformed s'" using wf2 by (simp add: s')
  moreover have "evolves now s s'" using evolves_trans[OF ev1 ev2] by (simp add: s')
  moreover have "ledgerGap s' c = ledgerGap s c" for c
    by (simp add: s' ledgerGap_emit gap2 gap1)
  ultimately show ?thesis by blast
qed

lemma releaseMilestone_Inr:
  assumes "releaseMilestone send sender cid mid s = Inr s'"
  obtains s2 where "exists (campaigns s cid)" "sender = creator (campaigns s cid)"
    "mid < milestoneCount (campaigns s cid)"
    "goalAmount (campaigns s cid) \<le> amountRaised (campaigns s cid)"
    "completed (milestones s cid mid)" "\<not> released (milestones s cid mid)"
    "votesAgainst (milestones s cid mid) < votesFor (milestones s cid mid)"
    "send (creator (campaigns s cid)) (amount (milestones s cid mid))
       (s\<lparr> milestones := (milestones s)(cid :=
            (milestones s cid)(mid := (milestones s cid mid)\<lparr> released := True \<rparr>)) \<rparr>)
     = (True, s2)"
    "s' = s2\<lparr> events := events s2 @
        [MilestoneReleased cid mid (amount (milestones s cid mid))] \<rparr>"
  using assms
  by (auto simp: releaseMilestone_def Let_def split: if_splits prod.splits)

lemma releaseMilestone_step:
  assumes wf: "wellformed s" and ok: "releaseMilestone send sender cid mid s = Inr s'"
    and send: "\<And>to amt s1. wellformed s1 \<Longrightarrow>
        wellformed (snd (send to amt s1)) \<and> evolves now s1 (snd (send to amt s1)) \<and>
        (\<forall>c. ledgerGap (snd (send to amt s1)) c = ledgerGap s1 c)"
  shows "wellformed s' \<and> evolves now s s' \<and> (\<forall>c. ledgerGap s' c = ledgerGap s c)"
proof -
  define s1 where "s1 = s\<lparr> milestones := (milestones s)(cid :=
            (milestones s cid)(mid := (milestones s cid mid)\<lparr> released := True \<rparr>)) \<rparr>"
  from ok obtain s2 where g: "exists (campaigns s cid)" "mid < milestoneCount (campaigns s cid)"
      "completed (milestones s cid mid)"
    and tr: "send (creator (campaigns s cid)) (amount (milestones s cid mid)) s1 = (True, s2)"
    and s': "s' = s2\<lparr> events := events s2 @
        [MilestoneReleased cid mid (amount (milestones s cid mid))] \<rparr>"
    unfolding s1_def by (rule releaseMilestone_Inr)
  have wf1: "wellformed s1"
  proof (rule wellformedI)
    fix c show "exists (campaigns s1 c) \<Longrightarrow> c \<le> campaignCounter s1 \<and> 0 < goalAmount (campaigns s1 c)"
      using wf_counter[OF wf, of c] wf_goal[OF wf, of c] g by (auto simp: s1_def split: if_splits)
  next
    fix c show "\<not> exists (campaigns s1 c) \<Longrightarrow> campaigns s1 c = zeroCampaign"
      using wf_zero[OF wf, of c] g by (auto simp: s1_def split: if_splits)
  next
    fix c m show "milestoneCount (campaigns s1 c) \<le> m \<Longrightarrow> milestones s1 c m = zeroMilestone"
      using wf_range[OF wf, of c m] g by (auto simp: s1_def split: if_splits)
  next
    fix c m show "released (milestones s1 c m) \<Longrightarrow> completed (milestones s1 c m)"
      using wf_released[OF wf, of c m] g by (auto simp: s1_def split: if_splits)
  next
    fix c m show "completed (milestones s1 c (Suc m)) \<Longrightarrow> released (milestones s1 c m)"
      using wf_order[OF wf, of c m] g by (auto simp: s1_def split: if_splits)
  next
    fix c m show "completed (milestones s1 c m) \<Longrightarrow>
          goalAmount (campaigns s1 c) \<le> amountRaised (campaigns s1 c)"
      using wf_funded[OF wf, of c m] g by (auto simp: s1_def split: if_splits)
  next
    fix c m a show "milestoneVotes s1 c m a \<Longrightarrow>
          completed (milestones s1 c m) \<and> 0 < contributions s1 c a"
      using wf_voted[OF wf, of c m a]  g by (auto simp: s1_def split: if_splits)
  qed
  have ev1: "evolves now s s1"
    unfolding evolves_def by (auto simp: s1_def)
  have gap1: "ledgerGap s1 c = ledgerGap s c" for c
    by (simp add: ledgerGap_def totalContributions_def totalRefunded_def s1_def)
  from send[OF wf1, of "creator (campaigns s cid)" "amount (milestones s cid mid)"] tr
  have wf2: "wellformed s2" and ev2: "evolves now s1 s2"
    and gap2: "\<And>c. ledgerGap s2 c = ledgerGap s1 c" by simp_all
  have "wellformed s'" using wf2 by (simp add: s')
  moreover have "evolves now s s'" using evolves_trans[OF ev1 ev2] by (simp add: s')
  moreover have "ledgerGap s' c = ledgerGap s c" for c
    by (simp add: s' ledgerGap_emit gap2 gap1)
  ultimately show ?thesis by blast
qed

lemma refund_Inr:
  assumes "refund send now sender cid s = Inr s'"
  obtains s2 where "exists (campaigns s cid)" "deadline (campaigns s cid) \<le> now"
    "amountRaised (campaigns s cid) < goalAmount (campaigns s cid)"
    "0 < contributions s cid sender"
    "send sender (contributions s cid sender)
       (s\<lparr> contributions := (contributions s)(cid := (contributions s cid)(sender := 0)) \<rparr>)
     = (True, s2)"
    "s' = s2\<lparr> events := events s2 @
        [RefundIssued cid sender (contributions s cid sender)] \<rparr>"
  using assms
  by (auto simp: refund_def Let_def split: if_splits prod.splits)

lemma refund_step:
  assumes wf: "wellformed s" and ok: "refund send now sender cid s = Inr s'"
    and send: "\<And>to amt s1. wellformed s1 \<Longrightarrow>
        wellformed (snd (send to amt s1)) \<and> evolves now s1 (snd (send to amt s1)) \<and>
        (\<forall>c. ledgerGap (snd (send to amt s1)) c = ledgerGap s1 c)"
  shows "wellformed s' \<and> evolves now s s' \<and> (\<forall>c. ledgerGap s' c = ledgerGap s c)"
proof -
  define s1 where "s1 = s\<lparr> contributions := (contributions s)(cid :=
     (contributions s cid)(sender := 0)) \<rparr>"
  from ok obtain s2 where g: "exists (campaigns s cid)"
      "amountRaised (campaigns s cid) < goalAmount (campaigns s cid)"
    and tr: "send sender (contributions s cid sender) s1 = (True, s2)"
    and s': "s' = s2\<lparr> events := events s2 @
        [RefundIssued cid sender (contributions s cid sender)] \<rparr>"
    unfolding s1_def by (rule refund_Inr)
  have unvoted: "\<not> milestoneVotes s cid m a" for m a
    using wf_voted[OF wf, of cid m a] wf_funded[OF wf, of cid m] g by auto
  have wf1: "wellformed s1"
  proof (rule wellformedI)
    fix c show "exists (campaigns s1 c) \<Longrightarrow> c \<le> campaignCounter s1 \<and> 0 < goalAmount (campaigns s1 c)"
      using wf_counter[OF wf, of c] wf_goal[OF wf, of c] g by (auto simp: s1_def split: if_splits)
  next
    fix c show "\<not> exists (campaigns s1 c) \<Longrightarrow> campaigns s1 c = zeroCampaign"
      using wf_zero[OF wf, of c] g by (auto simp: s1_def split: if_splits)
  next
    fix c m show "milestoneCount (campaigns s1 c) \<le> m \<Longrightarrow> milestones s1 c m = zeroMilestone"
      using wf_range[OF wf, of c m] g by (auto simp: s1_def split: if_splits)
  next
    fix c m show "released (milestones s1 c m) \<Longrightarrow> completed (milestones s1 c m)"
      using wf_released[OF wf, of c m] g by (auto simp: s1_def split: if_splits)
  next
    fix c m show "completed (milestones s1 c (Suc m)) \<Longrightarrow> released (milestones s1 c m)"
      using wf_order[OF wf, of c m] g by (auto simp: s1_def split: if_splits)
  next
    fix c m show "completed (milestones s1 c m) \<Longrightarrow>
          goalAmount (campaigns s1 c) \<le> amountRaised (campaigns s1 c)"
      using wf_funded[OF wf, of c m] g by (auto simp: s1_def split: if_splits)
  next
    fix c m a show "milestoneVotes s1 c m a \<Longrightarrow>
          completed (milestones s1 c m) \<and> 0 < contributions s1 c a"
      using wf_voted[OF wf, of c m a] unvoted[of m a] g by (auto simp: s1_def split: if_splits)
  qed
  have ev1: "evolves now s s1"
    unfolding evolves_def by (auto simp: s1_def)
  have gap1: "ledgerGap s1 c = ledgerGap s c + int (refundedBy c (RefundIssued cid sender (contributions s cid sender)))" for c
  proof (cases "c = cid")
    case True
    have "int (totalContributions s1 cid) =
            int (totalContributions s cid) - int (contributions s cid sender)"
      using totalContributions_upd[of s1 cid s sender 0] by (simp add: s1_def)
    then show ?thesis by (simp add: ledgerGap_def True totalRefunded_def) (simp add: s1_def)
  next
    case False
    then show ?thesis
      by (simp add: ledgerGap_def totalContributions_def totalRefunded_def s1_def)
  qed
  from send[OF wf1, of sender "contributions s cid sender"] tr
  have wf2: "wellformed s2" and ev2: "evolves now s1 s2"
    and gap2: "\<And>c. ledgerGap s2 c = ledgerGap s1 c" by simp_all
  have "wellformed s'" using wf2 by (simp add: s')
  moreover have "evolves now s s'" using evolves_trans[OF ev1 ev2] by (simp add: s')
  moreover have "ledgerGap s' c = ledgerGap s c" for c
    by (simp add: s' ledgerGap_emit gap2 gap1)
  ultimately show ?thesis by blast
qed

lemma exec_execs_step:
  "wellformed s \<longrightarrow> (\<forall>s'. exec now sender c s = Inr s' \<longrightarrow>
      wellformed s' \<and> evolves now s s' \<and> (\<forall>k. ledgerGap s' k = ledgerGap s k))"
  "wellformed s0 \<longrightarrow>
      wellformed (execs now0 cs s0) \<and> evolves now0 s0 (execs now0 cs s0) \<and>
      (\<forall>k. ledgerGap (execs now0 cs s0) k = ledgerGap s0 k)"
proof (induction now sender c s and now0 cs s0 rule: exec_execs.induct)
  case (1 now sender ttl descr cat img goal days ds as s)
  then show ?case by (auto split: sum.splits dest: createCampaign_step)
next
  case (2 now sender campaignId val s)
  then show ?case by (auto dest: contribute_step)
next
  case (3 now sender campaignId milestoneId s)
  then show ?case by (auto dest: completeMilestone_step)
next
  case (4 now sender campaignId milestoneId approve s)
  then show ?case by (auto dest: voteOnMilestone_step)
next
  case (5 now sender campaignId milestoneId cs ok s)
  show ?case
  proof (intro impI allI)
    fix s' assume wf: "wellformed s"
      and ok: "exec now sender (ReleaseMilestone campaignId milestoneId cs ok) s = Inr s'"
    show "wellformed s' \<and> evolves now s s' \<and> (\<forall>k. ledgerGap s' k = ledgerGap s k)"
      by (rule releaseMilestone_step[OF wf ok[simplified]]) (use 5 in simp)
  qed
next
  case (6 now sender campaignId cs ok s)
  show ?case
  proof (intro impI allI)
    fix s' assume wf: "wellformed s"
      and ok: "exec now sender (WithdrawFunds campaignId cs ok) s = Inr s'"
    show "wellformed s' \<and> evolves now s s' \<and> (\<forall>k. ledgerGap s' k = ledgerGap s k)"
      by (rule withdrawFunds_step[OF wf ok[simplified]]) (use 6 in simp)
  qed
next
  case (7 now sender campaignId cs ok s)
  show ?case
  proof (intro impI allI)
    fix s' assume wf: "wellformed s"
      and ok: "exec now sender (Refund campaignId cs ok) s = Inr s'"
    show "wellformed s' \<and> evolves now s s' \<and> (\<forall>k. ledgerGap s' k = ledgerGap s k)"
      by (rule refund_step[OF wf ok[simplified]]) (use 7 in simp)
  qed
next
  case (8 now s)
  then show ?case by (simp add: evolves_refl)
next
  case (9 now a c cs s)
  show ?case
  proof (cases "exec now a c s")
    case (Inl e)
    with 9 show ?thesis by simp
  next
    case (Inr s')
    show ?thesis
    proof
      assume wf: "wellformed s"
      with 9(1) Inr have st: "wellformed s'" "evolves now s s'" "\<And>k. ledgerGap s' k = ledgerGap s k"
        by simp_all
      from 9(2) Inr st(1) have st': "wellformed (execs now cs s')" "evolves now s' (execs now cs s')"
        "\<And>k. ledgerGap (execs now cs s') k = ledgerGap s' k" by simp_all
      show "wellformed (execs now ((a, c) # cs) s) \<and>
        evolves now s (execs now ((a, c) # cs) s) \<and>
        (\<forall>k. ledgerGap (execs now ((a, c) # cs) s) k = ledgerGap s k)"
        using st st' evolves_trans[OF st(2) st'(2)] by (simp add: Inr)
    qed
  qed
qed

lemma exec_step:
  assumes "wellformed s" "exec now sender c s = Inr s'"
  shows "wellformed s'" "evolves now s s'" "ledgerGap s' k = ledgerGap s k"
  using exec_execs_step(1)[of s now sender c] assms by simp_all

lemma reachable_wellformed: "reachable s \<Longrightarrow> wellformed s"
  by (induction rule: reachable.induct) (auto simp: wellformed_initial dest: exec_step(1))



lemma reachable_run: "reachable s \<Longrightarrow> reachable (run txs s)"
proof (induction txs s rule: run.induct)
  case (1 s)
  then show ?case by simp
next
  case (2 now sender c txs s)
  show ?case
  proof (cases "exec now sender c s")
    case (Inl e)
    with 2 show ?thesis by simp
  next
    case (Inr s')
    with 2(2) have "reachable s'" by (auto intro: reachable_step)
    with 2(1) Inr show ?thesis by simp
  qed
qed

lemma run_step:
  assumes "wellformed s" "\<forall>(t, a, c) \<in> set txs. t0 \<le> t"
  shows "wellformed (run txs s) \<and> evolves t0 s (run txs s)"
  using assms
proof (induction txs s rule: run.induct)
  case (1 s)
  then show ?case by (simp add: evolves_refl)
next
  case (2 now sender c txs s)
  show ?case
  proof (cases "exec now sender c s")
    case (Inl e)
    with 2 show ?thesis by simp
  next
    case (Inr s')
    from 2(2) Inr have wf': "wellformed s'" and ev: "evolves now s s'"
      by (auto dest: exec_step)
    from 2(3) have le: "t0 \<le> now" by simp
    from 2(1) wf' 2(3) Inr have "wellformed (run txs s')" "evolves t0 s' (run txs s')" by simp_all
    with evolves_trans[OF evolves_earlier[OF le ev]] show ?thesis by (simp add: Inr)
  qed
qed

text \<open>The equations that evaluate the entry points on the storages of the scenarios.\<close>

lemmas entry_points = createCampaign_def contribute_def completeMilestone_def
  voteOnMilestone_def releaseMilestone_def withdrawFunds_def refund_def
  validateMilestones_def checked_add_def initial_def zeroCampaign_def zeroMilestone_def
  carol_def alice_def bob_def

lemma reachable_fundedCampaign: "reachable fundedCampaign"
  unfolding fundedCampaign_def by (rule reachable_run) (rule reachable_initial)

lemma reachable_halfFundedCampaign: "reachable halfFundedCampaign"
  unfolding halfFundedCampaign_def by (rule reachable_run) (rule reachable_initial)

lemma reachable_milestoneCampaign: "reachable milestoneCampaign"
  unfolding milestoneCampaign_def by (rule reachable_run) (rule reachable_initial)

lemma reachable_afterWithdrawal: "reachable afterWithdrawal"
  unfolding afterWithdrawal_def by (rule reachable_run) (rule reachable_fundedCampaign)


lemma reachable_afterRelease: "reachable afterRelease"
  unfolding afterRelease_def by (rule reachable_run) (rule reachable_milestoneCampaign)

lemma reachable_secondCompleted: "reachable secondCompleted"
  unfolding secondCompleted_def by (rule reachable_run) (rule reachable_afterRelease)

lemma reachable_bothReleased: "reachable bothReleased"
  unfolding bothReleased_def by (rule reachable_run) (rule reachable_secondCompleted)

lemma withdrawal_succeeds:
  "exec 2592000 carol (WithdrawFunds 1 [] True) fundedCampaign = Inr afterWithdrawal"
  by (simp add: afterWithdrawal_def fundedCampaign_def entry_points)

lemma refund_succeeds:
  "exec 2592000 alice (Refund 1 [] True) halfFundedCampaign = Inr afterRefund"
  by (simp add: afterRefund_def halfFundedCampaign_def entry_points)

lemma release_succeeds:
  "exec 4 carol (ReleaseMilestone 1 0 [] True) milestoneCampaign = Inr afterRelease"
  by (simp add: afterRelease_def milestoneCampaign_def entry_points)

section \<open>Value transfers\<close>

text \<open>
  C2.  In \<^verbatim>\<open>withdrawFunds\<close>, \<^verbatim>\<open>refund\<close> and \<^verbatim>\<open>releaseMilestone\<close> the bookkeeping
  is written before the external transfer and nothing is written after it: when the call
  succeeds, the transfer received the storage with the campaign marked withdrawn (the
  contributor's balance zeroed, the milestone marked released), it succeeded, and the
  storage after the call is the storage the transfer left, with only the event appended to
  the log.  A call that would succeed with a recipient that accepts the value reverts with
  the transfer error when the recipient rejects it, and a transaction that reverts leaves
  the whole storage as it was.
\<close>

theorem bookkeeping_precedes_transfer:
  "(withdrawFunds send now sender cid s = Inr s' \<longrightarrow>
      (\<exists>s2. send (creator (campaigns s cid)) (amountRaised (campaigns s cid))
               (s\<lparr> campaigns := (campaigns s)(cid :=
                     (campaigns s cid)\<lparr> withdrawn := True \<rparr>) \<rparr>) = (True, s2) \<and>
            s' = s2\<lparr> events := events s2 @
                   [FundsWithdrawn cid (creator (campaigns s2 cid))
                      (amountRaised (campaigns s cid))] \<rparr>)) \<and>
   (refund rsend rnow rsender rcid r = Inr r' \<longrightarrow>
      (\<exists>r2. rsend rsender (contributions r rcid rsender)
               (r\<lparr> contributions := (contributions r)(rcid :=
                     (contributions r rcid)(rsender := 0)) \<rparr>) = (True, r2) \<and>
            r' = r2\<lparr> events := events r2 @
                   [RefundIssued rcid rsender (contributions r rcid rsender)] \<rparr>)) \<and>
   (releaseMilestone msend msender mcid mid m = Inr m' \<longrightarrow>
      (\<exists>m2. msend (creator (campaigns m mcid)) (amount (milestones m mcid mid))
               (m\<lparr> milestones := (milestones m)(mcid :=
                     (milestones m mcid)(mid :=
                        (milestones m mcid mid)\<lparr> released := True \<rparr>)) \<rparr>) = (True, m2) \<and>
            m' = m2\<lparr> events := events m2 @
                   [MilestoneReleased mcid mid (amount (milestones m mcid mid))] \<rparr>)) \<and>
   (exec wnow wsender (WithdrawFunds wcid wcs True) w = Inr w' \<longrightarrow>
      exec wnow wsender (WithdrawFunds wcid wcs False) w = Inl (Revert ''Transfer failed'')) \<and>
   (exec qnow qsender (Refund qcid qcs True) q = Inr q' \<longrightarrow>
      exec qnow qsender (Refund qcid qcs False) q = Inl (Revert ''Refund transfer failed'')) \<and>
   (exec pnow psender (ReleaseMilestone pcid pmid pcs True) p = Inr p' \<longrightarrow>
      exec pnow psender (ReleaseMilestone pcid pmid pcs False) p
        = Inl (Revert ''Transfer failed'')) \<and>
   (exec fnow fsender c f = Inl e \<longrightarrow>
      execs fnow [(fsender, c)] f = f \<and> run [(fnow, fsender, c)] f = f)"
proof (intro conjI impI)
  assume "withdrawFunds send now sender cid s = Inr s'"
  then show "\<exists>s2. send (creator (campaigns s cid)) (amountRaised (campaigns s cid))
               (s\<lparr> campaigns := (campaigns s)(cid :=
                     (campaigns s cid)\<lparr> withdrawn := True \<rparr>) \<rparr>) = (True, s2) \<and>
            s' = s2\<lparr> events := events s2 @
                   [FundsWithdrawn cid (creator (campaigns s2 cid))
                      (amountRaised (campaigns s cid))] \<rparr>"
    by (elim withdrawFunds_Inr) blast
next
  assume "refund rsend rnow rsender rcid r = Inr r'"
  then show "\<exists>r2. rsend rsender (contributions r rcid rsender)
               (r\<lparr> contributions := (contributions r)(rcid :=
                     (contributions r rcid)(rsender := 0)) \<rparr>) = (True, r2) \<and>
            r' = r2\<lparr> events := events r2 @
                   [RefundIssued rcid rsender (contributions r rcid rsender)] \<rparr>"
    by (elim refund_Inr) blast
next
  assume "releaseMilestone msend msender mcid mid m = Inr m'"
  then show "\<exists>m2. msend (creator (campaigns m mcid)) (amount (milestones m mcid mid))
               (m\<lparr> milestones := (milestones m)(mcid :=
                     (milestones m mcid)(mid :=
                        (milestones m mcid mid)\<lparr> released := True \<rparr>)) \<rparr>) = (True, m2) \<and>
            m' = m2\<lparr> events := events m2 @
                   [MilestoneReleased mcid mid (amount (milestones m mcid mid))] \<rparr>"
    by (elim releaseMilestone_Inr) blast
next
  assume "exec wnow wsender (WithdrawFunds wcid wcs True) w = Inr w'"
  then show "exec wnow wsender (WithdrawFunds wcid wcs False) w = Inl (Revert ''Transfer failed'')"
    by (auto simp: withdrawFunds_def Let_def split: if_splits)
next
  assume "exec qnow qsender (Refund qcid qcs True) q = Inr q'"
  then show "exec qnow qsender (Refund qcid qcs False) q = Inl (Revert ''Refund transfer failed'')"
    by (auto simp: refund_def Let_def split: if_splits)
next
  assume "exec pnow psender (ReleaseMilestone pcid pmid pcs True) p = Inr p'"
  then show "exec pnow psender (ReleaseMilestone pcid pmid pcs False) p
        = Inl (Revert ''Transfer failed'')"
    by (auto simp: releaseMilestone_def Let_def split: if_splits)
next
  assume "exec fnow fsender c f = Inl e"
  then show "execs fnow [(fsender, c)] f = f" by simp
next
  assume "exec fnow fsender c f = Inl e"
  then show "run [(fnow, fsender, c)] f = f" by simp
qed

theorem bookkeeping_precedes_transfer_witness:
  "(withdrawFunds accepting 2592000 carol 1 fundedCampaign = Inr afterWithdrawal \<and>
      (\<exists>s2. accepting (creator (campaigns fundedCampaign 1)) (amountRaised (campaigns fundedCampaign 1))
               (fundedCampaign\<lparr> campaigns := (campaigns fundedCampaign)(1 :=
                     (campaigns fundedCampaign 1)\<lparr> withdrawn := True \<rparr>) \<rparr>) = (True, s2) \<and>
            afterWithdrawal = s2\<lparr> events := events s2 @
                   [FundsWithdrawn 1 (creator (campaigns s2 1))
                      (amountRaised (campaigns fundedCampaign 1))] \<rparr>)) \<and>
   (refund accepting 2592000 alice 1 halfFundedCampaign = Inr afterRefund \<and>
      (\<exists>r2. accepting alice (contributions halfFundedCampaign 1 alice)
               (halfFundedCampaign\<lparr> contributions := (contributions halfFundedCampaign)(1 :=
                     (contributions halfFundedCampaign 1)(alice := 0)) \<rparr>) = (True, r2) \<and>
            afterRefund = r2\<lparr> events := events r2 @
                   [RefundIssued 1 alice (contributions halfFundedCampaign 1 alice)] \<rparr>)) \<and>
   (releaseMilestone accepting carol 1 0 milestoneCampaign = Inr afterRelease \<and>
      (\<exists>m2. accepting (creator (campaigns milestoneCampaign 1)) (amount (milestones milestoneCampaign 1 0))
               (milestoneCampaign\<lparr> milestones := (milestones milestoneCampaign)(1 :=
                     (milestones milestoneCampaign 1)(0 :=
                        (milestones milestoneCampaign 1 0)\<lparr> released := True \<rparr>)) \<rparr>) = (True, m2) \<and>
            afterRelease = m2\<lparr> events := events m2 @
                   [MilestoneReleased 1 0 (amount (milestones milestoneCampaign 1 0))] \<rparr>)) \<and>
   (exec 2592000 carol (WithdrawFunds 1 [] True) fundedCampaign = Inr afterWithdrawal \<and>
      exec 2592000 carol (WithdrawFunds 1 [] False) fundedCampaign = Inl (Revert ''Transfer failed'')) \<and>
   (exec 2592000 alice (Refund 1 [] True) halfFundedCampaign = Inr afterRefund \<and>
      exec 2592000 alice (Refund 1 [] False) halfFundedCampaign = Inl (Revert ''Refund transfer failed'')) \<and>
   (exec 4 carol (ReleaseMilestone 1 0 [] True) milestoneCampaign = Inr afterRelease \<and>
      exec 4 carol (ReleaseMilestone 1 0 [] False) milestoneCampaign
        = Inl (Revert ''Transfer failed'')) \<and>
   (exec 0 alice (Contribute 7 1) initial = Inl (Revert ''Campaign does not exist'') \<and>
      execs 0 [(alice, (Contribute 7 1))] initial = initial \<and> run [(0, alice, (Contribute 7 1))] initial = initial)"
proof -
  have h1: "withdrawFunds accepting 2592000 carol 1 fundedCampaign = Inr afterWithdrawal"
    using withdrawal_succeeds by (simp add: accepting_def[abs_def])
  have h2: "refund accepting 2592000 alice 1 halfFundedCampaign = Inr afterRefund"
    using refund_succeeds by (simp add: accepting_def[abs_def])
  have h3: "releaseMilestone accepting carol 1 0 milestoneCampaign = Inr afterRelease"
    using release_succeeds by (simp add: accepting_def[abs_def])
  have h4: "exec 0 alice (Contribute 7 1) initial = Inl (Revert ''Campaign does not exist'')"
    by (simp add: entry_points)
  show ?thesis
    using bookkeeping_precedes_transfer[where send = "accepting" and now = "2592000"
        and sender = "carol" and cid = "1" and s = "fundedCampaign" and s' = "afterWithdrawal"
        and rsend = "accepting" and rnow = "2592000" and rsender = "alice" and rcid = "1"
        and r = "halfFundedCampaign" and r' = "afterRefund" and msend = "accepting"
        and msender = "carol" and mcid = "1" and mid = "0" and m = "milestoneCampaign"
        and m' = "afterRelease" and wnow = "2592000" and wsender = "carol" and wcid = "1"
        and wcs = "[]" and w = "fundedCampaign" and w' = "afterWithdrawal" and qnow = "2592000"
        and qsender = "alice" and qcid = "1" and qcs = "[]" and q = "halfFundedCampaign"
        and q' = "afterRefund" and pnow = "4" and psender = "carol" and pcid = "1"
        and pmid = "0" and pcs = "[]" and p = "milestoneCampaign" and p' = "afterRelease"
        and fnow = "0" and fsender = "alice" and c = "(Contribute 7 1)" and f = "initial"
        and e = "(Revert ''Campaign does not exist'')"]
      h1 h2 h3 h4 withdrawal_succeeds refund_succeeds release_succeeds
    by blast
qed

section \<open>The ledger\<close>


lemma evolves_ended:
  assumes "evolves now s s'" "exists (campaigns s c)" "deadline (campaigns s c) \<le> now"
  shows "amountRaised (campaigns s' c) = amountRaised (campaigns s c)"
    and "contributions s' c a \<le> contributions s c a"
  using assms unfolding evolves_def by blast+




section \<open>Lump withdrawal\<close>

lemma evolves_campaign:
  assumes "evolves now s s'" "exists (campaigns s c)"
  shows "exists (campaigns s' c)"
    and "creator (campaigns s' c) = creator (campaigns s c)"
    and "goalAmount (campaigns s' c) = goalAmount (campaigns s c)"
    and "deadline (campaigns s' c) = deadline (campaigns s c)"
    and "milestoneCount (campaigns s' c) = milestoneCount (campaigns s c)"
    and "withdrawn (campaigns s c) \<Longrightarrow> withdrawn (campaigns s' c)"
    and "amount (milestones s' c m) = amount (milestones s c m)"
    and "completed (milestones s c m) \<Longrightarrow> completed (milestones s' c m)"
    and "released (milestones s c m) \<Longrightarrow> released (milestones s' c m)"
    and "milestoneVotes s c m a \<Longrightarrow> milestoneVotes s' c m a"
  using assms unfolding evolves_def by blast+

lemma execs_step:
  assumes "wellformed s"
  shows "wellformed (execs now cs s)" "evolves now s (execs now cs s)"
  using exec_execs_step(2)[of s now cs] assms by simp_all

lemma withdrawFunds_marked_wellformed:
  assumes wf: "wellformed s" and ex: "exists (campaigns s cid)"
  shows "wellformed (s\<lparr> campaigns := (campaigns s)(cid :=
           (campaigns s cid)\<lparr> withdrawn := True \<rparr>) \<rparr>)"
proof (rule wellformedI)
  let ?s1 = "s\<lparr> campaigns := (campaigns s)(cid := (campaigns s cid)\<lparr> withdrawn := True \<rparr>) \<rparr>"
  fix c show "exists (campaigns ?s1 c) \<Longrightarrow> c \<le> campaignCounter ?s1 \<and> 0 < goalAmount (campaigns ?s1 c)"
    using wf_counter[OF wf, of c] wf_goal[OF wf, of c] ex by (auto split: if_splits)
next
  let ?s1 = "s\<lparr> campaigns := (campaigns s)(cid := (campaigns s cid)\<lparr> withdrawn := True \<rparr>) \<rparr>"
  fix c show "\<not> exists (campaigns ?s1 c) \<Longrightarrow> campaigns ?s1 c = zeroCampaign"
    using wf_zero[OF wf, of c] ex by (auto split: if_splits)
next
  let ?s1 = "s\<lparr> campaigns := (campaigns s)(cid := (campaigns s cid)\<lparr> withdrawn := True \<rparr>) \<rparr>"
  fix c m show "milestoneCount (campaigns ?s1 c) \<le> m \<Longrightarrow> milestones ?s1 c m = zeroMilestone"
    using wf_range[OF wf, of c m] by (auto split: if_splits)
next
  let ?s1 = "s\<lparr> campaigns := (campaigns s)(cid := (campaigns s cid)\<lparr> withdrawn := True \<rparr>) \<rparr>"
  fix c m show "released (milestones ?s1 c m) \<Longrightarrow> completed (milestones ?s1 c m)"
    using wf_released[OF wf, of c m] by simp
next
  let ?s1 = "s\<lparr> campaigns := (campaigns s)(cid := (campaigns s cid)\<lparr> withdrawn := True \<rparr>) \<rparr>"
  fix c m show "completed (milestones ?s1 c (Suc m)) \<Longrightarrow> released (milestones ?s1 c m)"
    using wf_order[OF wf, of c m] by simp
next
  let ?s1 = "s\<lparr> campaigns := (campaigns s)(cid := (campaigns s cid)\<lparr> withdrawn := True \<rparr>) \<rparr>"
  fix c m show "completed (milestones ?s1 c m) \<Longrightarrow>
          goalAmount (campaigns ?s1 c) \<le> amountRaised (campaigns ?s1 c)"
    using wf_funded[OF wf, of c m] by (auto split: if_splits)
next
  let ?s1 = "s\<lparr> campaigns := (campaigns s)(cid := (campaigns s cid)\<lparr> withdrawn := True \<rparr>) \<rparr>"
  fix c m a show "milestoneVotes ?s1 c m a \<Longrightarrow>
          completed (milestones ?s1 c m) \<and> 0 < contributions ?s1 c a"
    using wf_voted[OF wf, of c m a] by simp
qed

lemma withdrawFunds_after_withdrawn:
  assumes "withdrawn (campaigns s cid)"
  shows "\<exists>e. withdrawFunds send now sender cid s = Inl e"
    and "exists (campaigns s cid) \<Longrightarrow> deadline (campaigns s cid) \<le> now \<Longrightarrow>
         sender = creator (campaigns s cid) \<Longrightarrow>
         withdrawFunds send now sender cid s = Inl (Revert ''Funds already withdrawn'')"
  using assms by (simp_all add: withdrawFunds_def Let_def)

lemma run_evolves:
  assumes "wellformed s"
  shows "wellformed (run txs s)" "evolves 0 s (run txs s)"
  using run_step[OF assms, of txs 0] by auto

lemma withdrawFunds_exec_Inr:
  assumes wf: "wellformed s"
    and ok: "exec now sender (WithdrawFunds cid cs ok) s = Inr s'"
  shows "withdrawn (campaigns s' cid)" "exists (campaigns s' cid)"
    "creator (campaigns s' cid) = sender" "deadline (campaigns s' cid) \<le> now"
proof -
  let ?s1 = "s\<lparr> campaigns := (campaigns s)(cid := (campaigns s cid)\<lparr> withdrawn := True \<rparr>) \<rparr>"
  from ok have "withdrawFunds (\<lambda>to amt s1. (ok, execs now cs s1)) now sender cid s = Inr s'"
    by simp
  then obtain s2 where ex: "exists (campaigns s cid)"
    and g: "sender = creator (campaigns s cid)" "deadline (campaigns s cid) \<le> now"
    and s2: "(ok, execs now cs ?s1) = (True, s2)"
    and s': "s' = s2\<lparr> events := events s2 @
        [FundsWithdrawn cid (creator (campaigns s2 cid)) (amountRaised (campaigns s cid))] \<rparr>"
    by (rule withdrawFunds_Inr)
  have wf1: "wellformed ?s1" by (rule withdrawFunds_marked_wellformed[OF wf ex])
  have "withdrawn (campaigns (execs now cs ?s1) cid)"
    by (rule evolves_campaign(6)[OF execs_step(2)[OF wf1]]) (simp_all add: ex)
  with s2 show "withdrawn (campaigns s' cid)" by (simp add: s')
  from evolves_campaign(1,2,4)[OF exec_step(2)[OF wf ok] ex] g
  show "exists (campaigns s' cid)" "creator (campaigns s' cid) = sender"
    "deadline (campaigns s' cid) \<le> now" by simp_all
qed

text \<open>
  C3, as stated, fails in the direction "if": the six conditions hold for the funded
  campaign at its deadline, and the creator's call still reverts when the creator's
  address rejects the value.
\<close>

theorem withdrawFunds_rejected_counterexample:
  "reachable fundedCampaign \<and>
   carol = creator (campaigns fundedCampaign 1) \<and>
   exists (campaigns fundedCampaign 1) \<and>
   deadline (campaigns fundedCampaign 1) \<le> 2592000 \<and>
   \<not> withdrawn (campaigns fundedCampaign 1) \<and>
   goalAmount (campaigns fundedCampaign 1) \<le> amountRaised (campaigns fundedCampaign 1) \<and>
   milestoneCount (campaigns fundedCampaign 1) = 0 \<and>
   exec 2592000 carol (WithdrawFunds 1 [] False) fundedCampaign
     = Inl (Revert ''Transfer failed'')"
  using reachable_fundedCampaign
  by (simp add: fundedCampaign_def entry_points)

text \<open>
  C3, amended.  In a reachable storage \<^verbatim>\<open>withdrawFunds\<close> succeeds if and only if the
  caller is the creator, the campaign exists, the deadline has passed, the funds are not yet
  withdrawn, the goal is reached, there are no milestones, and the transfer of exactly
  \<^verbatim>\<open>amountRaised\<close> to the creator, made on the storage with \<^verbatim>\<open>withdrawn\<close> already set,
  succeeds.  When the six conditions hold and that transfer fails, the call reverts with
  "Transfer failed".  After a successful call \<^verbatim>\<open>withdrawn\<close> is set, and after any further
  transactions every call of \<^verbatim>\<open>withdrawFunds\<close> for the campaign reverts; the same caller,
  calling again later, gets "Funds already withdrawn".
\<close>

theorem withdrawFunds_succeeds_iff:
  assumes "reachable s"
  shows "((\<exists>s'. withdrawFunds send now sender cid s = Inr s') \<longleftrightarrow>
            sender = creator (campaigns s cid) \<and>
            exists (campaigns s cid) \<and>
            deadline (campaigns s cid) \<le> now \<and>
            \<not> withdrawn (campaigns s cid) \<and>
            goalAmount (campaigns s cid) \<le> amountRaised (campaigns s cid) \<and>
            milestoneCount (campaigns s cid) = 0 \<and>
            fst (send (creator (campaigns s cid)) (amountRaised (campaigns s cid))
                   (s\<lparr> campaigns := (campaigns s)(cid :=
                         (campaigns s cid)\<lparr> withdrawn := True \<rparr>) \<rparr>))) \<and>
         (sender = creator (campaigns s cid) \<and>
          exists (campaigns s cid) \<and>
          deadline (campaigns s cid) \<le> now \<and>
          \<not> withdrawn (campaigns s cid) \<and>
          goalAmount (campaigns s cid) \<le> amountRaised (campaigns s cid) \<and>
          milestoneCount (campaigns s cid) = 0 \<and>
          \<not> fst (send (creator (campaigns s cid)) (amountRaised (campaigns s cid))
                   (s\<lparr> campaigns := (campaigns s)(cid :=
                         (campaigns s cid)\<lparr> withdrawn := True \<rparr>) \<rparr>)) \<longrightarrow>
            withdrawFunds send now sender cid s = Inl (Revert ''Transfer failed'')) \<and>
         (\<forall>s'. exec now sender (WithdrawFunds cid cs ok) s = Inr s' \<longrightarrow>
            withdrawn (campaigns s' cid) \<and>
            (\<forall>txs send2 now2 sender2.
               (\<exists>e. withdrawFunds send2 now2 sender2 cid (run txs s') = Inl e) \<and>
               (sender2 = sender \<and> now \<le> now2 \<longrightarrow>
                  withdrawFunds send2 now2 sender2 cid (run txs s')
                    = Inl (Revert ''Funds already withdrawn''))))"
proof -
  let ?s1 = "s\<lparr> campaigns := (campaigns s)(cid := (campaigns s cid)\<lparr> withdrawn := True \<rparr>) \<rparr>"
  let ?guards = "sender = creator (campaigns s cid) \<and>
            exists (campaigns s cid) \<and>
            deadline (campaigns s cid) \<le> now \<and>
            \<not> withdrawn (campaigns s cid) \<and>
            goalAmount (campaigns s cid) \<le> amountRaised (campaigns s cid) \<and>
            milestoneCount (campaigns s cid) = 0 \<and>
            fst (send (creator (campaigns s cid)) (amountRaised (campaigns s cid)) ?s1)"
  have wf: "wellformed s" by (rule reachable_wellformed[OF assms])
  have iff: "(\<exists>s'. withdrawFunds send now sender cid s = Inr s') \<longleftrightarrow> ?guards"
  proof
    assume "\<exists>s'. withdrawFunds send now sender cid s = Inr s'"
    then obtain s' where "withdrawFunds send now sender cid s = Inr s'" ..
    then show ?guards by (elim withdrawFunds_Inr) simp
  next
    assume g: ?guards
    then have "0 < amountRaised (campaigns s cid)"
      using wf_goal[OF wf, of cid] by simp
    with g show "\<exists>s'. withdrawFunds send now sender cid s = Inr s'"
      by (auto simp: withdrawFunds_def Let_def split: prod.splits)
  qed
  have failed: "withdrawFunds send now sender cid s = Inl (Revert ''Transfer failed'')"
    if g: "sender = creator (campaigns s cid) \<and>
          exists (campaigns s cid) \<and>
          deadline (campaigns s cid) \<le> now \<and>
          \<not> withdrawn (campaigns s cid) \<and>
          goalAmount (campaigns s cid) \<le> amountRaised (campaigns s cid) \<and>
          milestoneCount (campaigns s cid) = 0 \<and>
          \<not> fst (send (creator (campaigns s cid)) (amountRaised (campaigns s cid)) ?s1)"
  proof -
    from g have "0 < amountRaised (campaigns s cid)"
      using wf_goal[OF wf, of cid] by simp
    with g show ?thesis
      by (auto simp: withdrawFunds_def Let_def split: prod.splits)
  qed
  have once: "withdrawn (campaigns s' cid) \<and>
            (\<forall>txs send2 now2 sender2.
               (\<exists>e. withdrawFunds send2 now2 sender2 cid (run txs s') = Inl e) \<and>
               (sender2 = sender \<and> now \<le> now2 \<longrightarrow>
                  withdrawFunds send2 now2 sender2 cid (run txs s')
                    = Inl (Revert ''Funds already withdrawn'')))"
    if ok: "exec now sender (WithdrawFunds cid cs ok) s = Inr s'" for s'
  proof (intro conjI allI)
    note m = withdrawFunds_exec_Inr[OF wf ok]
    show "withdrawn (campaigns s' cid)" by (rule m(1))
    fix txs send2 now2 sender2
    have wf': "wellformed s'" by (rule exec_step(1)[OF wf ok])
    note ev = evolves_campaign[OF run_evolves(2)[OF wf', of txs] m(2)]
    have w: "withdrawn (campaigns (run txs s') cid)" by (rule ev(6)[OF m(1)])
    show "\<exists>e. withdrawFunds send2 now2 sender2 cid (run txs s') = Inl e"
      by (rule withdrawFunds_after_withdrawn(1)[OF w])
    show "sender2 = sender \<and> now \<le> now2 \<longrightarrow>
            withdrawFunds send2 now2 sender2 cid (run txs s')
              = Inl (Revert ''Funds already withdrawn'')"
    proof
      assume a: "sender2 = sender \<and> now \<le> now2"
      show "withdrawFunds send2 now2 sender2 cid (run txs s')
              = Inl (Revert ''Funds already withdrawn'')"
        by (rule withdrawFunds_after_withdrawn(2)[OF w ev(1)])
           (use a m ev(2,4) in simp_all)
    qed
  qed
  from iff failed once show ?thesis by blast
qed

theorem withdrawFunds_succeeds_iff_witness:
  "reachable fundedCampaign \<and>
   withdrawFunds accepting 2592000 carol 1 fundedCampaign = Inr afterWithdrawal \<and>
   fst (accepting (creator (campaigns fundedCampaign 1))
          (amountRaised (campaigns fundedCampaign 1))
          (fundedCampaign\<lparr> campaigns := (campaigns fundedCampaign)(1 :=
              (campaigns fundedCampaign 1)\<lparr> withdrawn := True \<rparr>) \<rparr>)) \<and>
   exec 2592000 carol (WithdrawFunds 1 [] True) fundedCampaign = Inr afterWithdrawal \<and>
   withdrawn (campaigns afterWithdrawal 1) \<and>
   withdrawFunds accepting 2592001 carol 1 (run [(2592000, alice, Contribute 1 1)] afterWithdrawal)
     = Inl (Revert ''Funds already withdrawn'') \<and>
   carol = creator (campaigns fundedCampaign 1) \<and>
   exists (campaigns fundedCampaign 1) \<and>
   deadline (campaigns fundedCampaign 1) \<le> 2592000 \<and>
   \<not> withdrawn (campaigns fundedCampaign 1) \<and>
   goalAmount (campaigns fundedCampaign 1) \<le> amountRaised (campaigns fundedCampaign 1) \<and>
   milestoneCount (campaigns fundedCampaign 1) = 0 \<and>
   \<not> fst (rejecting (creator (campaigns fundedCampaign 1))
          (amountRaised (campaigns fundedCampaign 1))
          (fundedCampaign\<lparr> campaigns := (campaigns fundedCampaign)(1 :=
              (campaigns fundedCampaign 1)\<lparr> withdrawn := True \<rparr>) \<rparr>)) \<and>
   withdrawFunds rejecting 2592000 carol 1 fundedCampaign = Inl (Revert ''Transfer failed'')"
proof -
  have h: "withdrawFunds accepting 2592000 carol 1 fundedCampaign = Inr afterWithdrawal"
    using withdrawal_succeeds by (simp add: accepting_def[abs_def])
  have g: "carol = creator (campaigns fundedCampaign 1)"
    "exists (campaigns fundedCampaign 1)"
    "deadline (campaigns fundedCampaign 1) \<le> 2592000"
    "\<not> withdrawn (campaigns fundedCampaign 1)"
    "goalAmount (campaigns fundedCampaign 1) \<le> amountRaised (campaigns fundedCampaign 1)"
    "milestoneCount (campaigns fundedCampaign 1) = 0"
    by (simp_all add: fundedCampaign_def entry_points)
  have n: "\<not> fst (rejecting (creator (campaigns fundedCampaign 1))
          (amountRaised (campaigns fundedCampaign 1))
          (fundedCampaign\<lparr> campaigns := (campaigns fundedCampaign)(1 :=
              (campaigns fundedCampaign 1)\<lparr> withdrawn := True \<rparr>) \<rparr>))"
    by (simp add: rejecting_def)
  from withdrawFunds_succeeds_iff[OF reachable_fundedCampaign,
      of rejecting 2592000 carol 1 "[]" True] g n
  have r: "withdrawFunds rejecting 2592000 carol 1 fundedCampaign
      = Inl (Revert ''Transfer failed'')"
    by blast
  note T = withdrawFunds_succeeds_iff[OF reachable_fundedCampaign,
      of accepting 2592000 carol 1 "[]" True]
  from T h have a: "fst (accepting (creator (campaigns fundedCampaign 1))
          (amountRaised (campaigns fundedCampaign 1))
          (fundedCampaign\<lparr> campaigns := (campaigns fundedCampaign)(1 :=
              (campaigns fundedCampaign 1)\<lparr> withdrawn := True \<rparr>) \<rparr>))"
    by blast
  from T withdrawal_succeeds have b: "withdrawn (campaigns afterWithdrawal 1)"
    and c: "\<forall>txs send2 now2 sender2.
               (\<exists>e. withdrawFunds send2 now2 sender2 1 (run txs afterWithdrawal) = Inl e) \<and>
               (sender2 = carol \<and> 2592000 \<le> now2 \<longrightarrow>
                  withdrawFunds send2 now2 sender2 1 (run txs afterWithdrawal)
                    = Inl (Revert ''Funds already withdrawn''))"
    by blast+
  from c[rule_format, of accepting 2592001 carol "[(2592000, alice, Contribute 1 1)]"]
  have d: "withdrawFunds accepting 2592001 carol 1
      (run [(2592000, alice, Contribute 1 1)] afterWithdrawal)
     = Inl (Revert ''Funds already withdrawn'')"
    by simp
  from reachable_fundedCampaign h a withdrawal_succeeds b d g n r show ?thesis by blast
qed

section \<open>Refunds\<close>

lemma refund_exec_Inr:
  assumes wf: "wellformed s"
    and ok: "exec now sender (Refund cid cs ok) s = Inr s'"
  shows "contributions s' cid sender = 0" "exists (campaigns s' cid)"
    "deadline (campaigns s' cid) \<le> now"
    "amountRaised (campaigns s' cid) < goalAmount (campaigns s' cid)"
proof -
  let ?s1 = "s\<lparr> contributions := (contributions s)(cid := (contributions s cid)(sender := 0)) \<rparr>"
  let ?e = "[RefundIssued cid sender (contributions s cid sender)]"
  from ok have "refund (\<lambda>to amt s1. (ok, execs now cs s1)) now sender cid s = Inr s'"
    by simp
  then obtain s2 where ex: "exists (campaigns s cid)"
    and g: "deadline (campaigns s cid) \<le> now"
      "amountRaised (campaigns s cid) < goalAmount (campaigns s cid)"
      "0 < contributions s cid sender"
    and s2: "(ok, execs now cs ?s1) = (True, s2)"
    and s': "s' = s2\<lparr> events := events s2 @ ?e \<rparr>"
    by (rule refund_Inr)
  have "refund accepting now sender cid s = Inr (?s1\<lparr> events := events ?s1 @ ?e \<rparr>)"
    using ex g by (simp add: refund_def accepting_def)
  from refund_step[OF wf this, THEN conjunct1]
  have wf1: "wellformed ?s1" by (simp add: accepting_def evolves_refl)
  have "contributions (execs now cs ?s1) cid sender \<le> contributions ?s1 cid sender"
    by (rule evolves_ended(2)[OF execs_step(2)[OF wf1]]) (simp_all add: ex g)
  with s2 show "contributions s' cid sender = 0" by (simp add: s')
  note ev = exec_step(2)[OF wf ok]
  from evolves_campaign(1,3,4)[OF ev ex] evolves_ended(1)[OF ev ex g(1)] g
  show "exists (campaigns s' cid)" "deadline (campaigns s' cid) \<le> now"
    "amountRaised (campaigns s' cid) < goalAmount (campaigns s' cid)" by simp_all
qed

lemma refund_without_contribution:
  assumes "contributions s cid sender = 0"
  shows "\<exists>e. refund send now sender cid s = Inl e"
    and "exists (campaigns s cid) \<Longrightarrow> deadline (campaigns s cid) \<le> now \<Longrightarrow>
         amountRaised (campaigns s cid) < goalAmount (campaigns s cid) \<Longrightarrow>
         refund send now sender cid s = Inl (Revert ''No contribution to refund'')"
  using assms by (simp_all add: refund_def Let_def)

text \<open>
  C4, as stated, fails in the direction "if": the four conditions hold for alice and the
  half-funded campaign at its deadline, and her call still reverts when her address rejects
  the value.
\<close>

theorem refund_rejected_counterexample:
  "reachable halfFundedCampaign \<and>
   exists (campaigns halfFundedCampaign 1) \<and>
   deadline (campaigns halfFundedCampaign 1) \<le> 2592000 \<and>
   amountRaised (campaigns halfFundedCampaign 1) < goalAmount (campaigns halfFundedCampaign 1) \<and>
   0 < contributions halfFundedCampaign 1 alice \<and>
   exec 2592000 alice (Refund 1 [] False) halfFundedCampaign
     = Inl (Revert ''Refund transfer failed'')"
  using reachable_halfFundedCampaign
  by (simp add: halfFundedCampaign_def entry_points)

text \<open>
  C4, amended.  In a reachable storage \<^verbatim>\<open>refund\<close> succeeds if and only if the campaign
  exists, the deadline has passed, the goal is not reached, the caller's balance is positive,
  and the transfer of exactly that balance to the caller, made on the storage with the balance
  already zeroed, succeeds.  When the four conditions hold and that transfer fails, the call
  reverts with "Refund transfer failed".  After a successful call the balance is zero; it stays zero
  through any transactions at that block timestamp or later, and every further refund call
  of the same contributor reverts, at that timestamp or later with
  "No contribution to refund".
\<close>

theorem refund_succeeds_iff:
  assumes "reachable s"
  shows "((\<exists>s'. refund send now sender cid s = Inr s') \<longleftrightarrow>
            exists (campaigns s cid) \<and>
            deadline (campaigns s cid) \<le> now \<and>
            amountRaised (campaigns s cid) < goalAmount (campaigns s cid) \<and>
            0 < contributions s cid sender \<and>
            fst (send sender (contributions s cid sender)
                   (s\<lparr> contributions := (contributions s)(cid :=
                         (contributions s cid)(sender := 0)) \<rparr>))) \<and>
         (exists (campaigns s cid) \<and>
          deadline (campaigns s cid) \<le> now \<and>
          amountRaised (campaigns s cid) < goalAmount (campaigns s cid) \<and>
          0 < contributions s cid sender \<and>
          \<not> fst (send sender (contributions s cid sender)
                   (s\<lparr> contributions := (contributions s)(cid :=
                         (contributions s cid)(sender := 0)) \<rparr>)) \<longrightarrow>
            refund send now sender cid s = Inl (Revert ''Refund transfer failed'')) \<and>
         (\<forall>s'. exec now sender (Refund cid cs ok) s = Inr s' \<longrightarrow>
            contributions s' cid sender = 0 \<and>
            (\<forall>txs send2 now2.
               (\<forall>(t, a, c) \<in> set txs. now \<le> t) \<longrightarrow>
               contributions (run txs s') cid sender = 0 \<and>
               (\<exists>e. refund send2 now2 sender cid (run txs s') = Inl e) \<and>
               (now \<le> now2 \<longrightarrow>
                  refund send2 now2 sender cid (run txs s')
                    = Inl (Revert ''No contribution to refund''))))"
proof -
  let ?s1 = "s\<lparr> contributions := (contributions s)(cid := (contributions s cid)(sender := 0)) \<rparr>"
  let ?guards = "exists (campaigns s cid) \<and>
            deadline (campaigns s cid) \<le> now \<and>
            amountRaised (campaigns s cid) < goalAmount (campaigns s cid) \<and>
            0 < contributions s cid sender \<and>
            fst (send sender (contributions s cid sender) ?s1)"
  have wf: "wellformed s" by (rule reachable_wellformed[OF assms])
  have iff: "(\<exists>s'. refund send now sender cid s = Inr s') \<longleftrightarrow> ?guards"
  proof
    assume "\<exists>s'. refund send now sender cid s = Inr s'"
    then obtain s' where "refund send now sender cid s = Inr s'" ..
    then show ?guards by (elim refund_Inr) simp
  next
    assume g: ?guards
    then show "\<exists>s'. refund send now sender cid s = Inr s'"
      by (auto simp: refund_def Let_def split: prod.splits)
  qed
  have failed: "refund send now sender cid s = Inl (Revert ''Refund transfer failed'')"
    if "exists (campaigns s cid) \<and>
          deadline (campaigns s cid) \<le> now \<and>
          amountRaised (campaigns s cid) < goalAmount (campaigns s cid) \<and>
          0 < contributions s cid sender \<and>
          \<not> fst (send sender (contributions s cid sender) ?s1)"
    using that by (auto simp: refund_def Let_def split: prod.splits)
  have once: "contributions s' cid sender = 0 \<and>
            (\<forall>txs send2 now2.
               (\<forall>(t, a, c) \<in> set txs. now \<le> t) \<longrightarrow>
               contributions (run txs s') cid sender = 0 \<and>
               (\<exists>e. refund send2 now2 sender cid (run txs s') = Inl e) \<and>
               (now \<le> now2 \<longrightarrow>
                  refund send2 now2 sender cid (run txs s')
                    = Inl (Revert ''No contribution to refund'')))"
    if ok: "exec now sender (Refund cid cs ok) s = Inr s'" for s'
  proof (intro conjI allI impI)
    note m = refund_exec_Inr[OF wf ok]
    show "contributions s' cid sender = 0" by (rule m(1))
    fix txs :: "(nat \<times> address \<times> call) list" and send2 :: transfer and now2 :: nat
    assume later: "\<forall>(t, a, c) \<in> set txs. now \<le> t"
    have wf': "wellformed s'" by (rule exec_step(1)[OF wf ok])
    from run_step[of s' txs now] wf' later have ev: "evolves now s' (run txs s')" by blast
    from evolves_ended(2)[OF ev m(2,3), of sender] m(1)
    show z: "contributions (run txs s') cid sender = 0" by simp
    show "\<exists>e. refund send2 now2 sender cid (run txs s') = Inl e"
      by (rule refund_without_contribution(1)[OF z])
    assume "now \<le> now2"
    with evolves_campaign(1,3,4)[OF ev m(2)] evolves_ended(1)[OF ev m(2,3)] m
    show "refund send2 now2 sender cid (run txs s') = Inl (Revert ''No contribution to refund'')"
      by (intro refund_without_contribution(2)[OF z]) simp_all
  qed
  from iff failed once show ?thesis by blast
qed

theorem refund_succeeds_iff_witness:
  "reachable halfFundedCampaign \<and>
   refund accepting 2592000 alice 1 halfFundedCampaign = Inr afterRefund \<and>
   fst (accepting alice (contributions halfFundedCampaign 1 alice)
          (halfFundedCampaign\<lparr> contributions := (contributions halfFundedCampaign)(1 :=
              (contributions halfFundedCampaign 1)(alice := 0)) \<rparr>)) \<and>
   exec 2592000 alice (Refund 1 [] True) halfFundedCampaign = Inr afterRefund \<and>
   contributions afterRefund 1 alice = 0 \<and>
   contributions (run [(2592001, alice, Contribute 1 2)] afterRefund) 1 alice = 0 \<and>
   refund accepting 2592002 alice 1 (run [(2592001, alice, Contribute 1 2)] afterRefund)
     = Inl (Revert ''No contribution to refund'') \<and>
   exists (campaigns halfFundedCampaign 1) \<and>
   deadline (campaigns halfFundedCampaign 1) \<le> 2592000 \<and>
   amountRaised (campaigns halfFundedCampaign 1) < goalAmount (campaigns halfFundedCampaign 1) \<and>
   0 < contributions halfFundedCampaign 1 alice \<and>
   \<not> fst (rejecting alice (contributions halfFundedCampaign 1 alice)
          (halfFundedCampaign\<lparr> contributions := (contributions halfFundedCampaign)(1 :=
              (contributions halfFundedCampaign 1)(alice := 0)) \<rparr>)) \<and>
   refund rejecting 2592000 alice 1 halfFundedCampaign
     = Inl (Revert ''Refund transfer failed'')"
proof -
  have h: "refund accepting 2592000 alice 1 halfFundedCampaign = Inr afterRefund"
    using refund_succeeds by (simp add: accepting_def[abs_def])
  have g: "exists (campaigns halfFundedCampaign 1)"
    "deadline (campaigns halfFundedCampaign 1) \<le> 2592000"
    "amountRaised (campaigns halfFundedCampaign 1) < goalAmount (campaigns halfFundedCampaign 1)"
    "0 < contributions halfFundedCampaign 1 alice"
    by (simp_all add: halfFundedCampaign_def entry_points)
  have n: "\<not> fst (rejecting alice (contributions halfFundedCampaign 1 alice)
          (halfFundedCampaign\<lparr> contributions := (contributions halfFundedCampaign)(1 :=
              (contributions halfFundedCampaign 1)(alice := 0)) \<rparr>))"
    by (simp add: rejecting_def)
  from refund_succeeds_iff[OF reachable_halfFundedCampaign,
      of rejecting 2592000 alice 1 "[]" True] g n
  have r: "refund rejecting 2592000 alice 1 halfFundedCampaign
      = Inl (Revert ''Refund transfer failed'')"
    by blast
  have l: "\<forall>(t, a, c) \<in> set [(2592001, alice, Contribute 1 2)]. (2592000::nat) \<le> t"
    by simp
  note T = refund_succeeds_iff[OF reachable_halfFundedCampaign,
      of accepting 2592000 alice 1 "[]" True]
  from T h have a: "fst (accepting alice (contributions halfFundedCampaign 1 alice)
          (halfFundedCampaign\<lparr> contributions := (contributions halfFundedCampaign)(1 :=
              (contributions halfFundedCampaign 1)(alice := 0)) \<rparr>))"
    by blast
  from T refund_succeeds have b: "contributions afterRefund 1 alice = 0"
    and c: "\<forall>txs send2 now2.
               (\<forall>(t, a, c) \<in> set txs. 2592000 \<le> t) \<longrightarrow>
               contributions (run txs afterRefund) 1 alice = 0 \<and>
               (\<exists>e. refund send2 now2 alice 1 (run txs afterRefund) = Inl e) \<and>
               (2592000 \<le> now2 \<longrightarrow>
                  refund send2 now2 alice 1 (run txs afterRefund)
                    = Inl (Revert ''No contribution to refund''))"
    by blast+
  from c[rule_format, of "[(2592001, alice, Contribute 1 2)]" accepting 2592002]
  have d: "contributions (run [(2592001, alice, Contribute 1 2)] afterRefund) 1 alice = 0"
    "refund accepting 2592002 alice 1 (run [(2592001, alice, Contribute 1 2)] afterRefund)
     = Inl (Revert ''No contribution to refund'')"
    by simp_all
  from reachable_halfFundedCampaign h a refund_succeeds b d g n r show ?thesis by blast
qed

section \<open>Milestones\<close>

text \<open>
  C5.  In every reachable storage a milestone with index \<open>i > 0\<close> is completed only if
  milestone \<open>i - 1\<close> is released, and so released only if milestone \<open>i - 1\<close> is
  released; \<^verbatim>\<open>completeMilestone\<close> reverts for every caller while milestone \<open>i - 1\<close> is
  not released, with "Previous milestone must be released first" when its other
  requirements hold.
\<close>

theorem milestones_released_in_order:
  assumes "reachable s" "0 < i"
  shows "(completed (milestones s c i) \<longrightarrow> released (milestones s c (i - 1))) \<and>
         (released (milestones s c i) \<longrightarrow> released (milestones s c (i - 1))) \<and>
         (\<not> released (milestones s c (i - 1)) \<longrightarrow>
            (\<exists>e. completeMilestone sender c i s = Inl e) \<and>
            (exists (campaigns s c) \<and> sender = creator (campaigns s c) \<and>
             i < milestoneCount (campaigns s c) \<and>
             goalAmount (campaigns s c) \<le> amountRaised (campaigns s c) \<longrightarrow>
               completeMilestone sender c i s
                 = Inl (Revert ''Previous milestone must be released first'')))"
proof -
  have wf: "wellformed s" by (rule reachable_wellformed[OF assms(1)])
  from assms(2) obtain j where i: "i = Suc j" by (cases i) auto
  have a: "completed (milestones s c i) \<longrightarrow> released (milestones s c (i - 1))"
    using wf_order[OF wf, of c j] by (simp add: i)
  have b: "released (milestones s c i) \<longrightarrow> released (milestones s c (i - 1))"
    using a wf_released[OF wf, of c i] by blast
  have c: "\<not> released (milestones s c (i - 1)) \<longrightarrow>
            (\<exists>e. completeMilestone sender c i s = Inl e)"
    using assms(2) by (simp add: completeMilestone_def Let_def)
  have d: "\<not> released (milestones s c (i - 1)) \<longrightarrow>
            exists (campaigns s c) \<and> sender = creator (campaigns s c) \<and>
             i < milestoneCount (campaigns s c) \<and>
             goalAmount (campaigns s c) \<le> amountRaised (campaigns s c) \<longrightarrow>
               completeMilestone sender c i s
                 = Inl (Revert ''Previous milestone must be released first'')"
    using assms(2) a by (auto simp: completeMilestone_def Let_def)
  from a b c d show ?thesis by blast
qed

theorem milestones_released_in_order_witness:
  "reachable bothReleased \<and> (0::nat) < 1 \<and>
   completed (milestones bothReleased 1 1) \<and> released (milestones bothReleased 1 1) \<and>
   released (milestones bothReleased 1 (1 - 1)) \<and>
   reachable milestoneCampaign \<and>
   \<not> released (milestones milestoneCampaign 1 (1 - 1)) \<and>
   exists (campaigns milestoneCampaign 1) \<and> carol = creator (campaigns milestoneCampaign 1) \<and>
   1 < milestoneCount (campaigns milestoneCampaign 1) \<and>
   goalAmount (campaigns milestoneCampaign 1) \<le> amountRaised (campaigns milestoneCampaign 1) \<and>
   completeMilestone carol 1 1 milestoneCampaign
     = Inl (Revert ''Previous milestone must be released first'')"
proof -
  have c: "completed (milestones bothReleased 1 1)" "released (milestones bothReleased 1 1)"
    by (simp_all add: bothReleased_def secondCompleted_def afterRelease_def
      milestoneCampaign_def entry_points)
  have g: "\<not> released (milestones milestoneCampaign 1 (1 - 1))"
    "exists (campaigns milestoneCampaign 1)" "carol = creator (campaigns milestoneCampaign 1)"
    "1 < milestoneCount (campaigns milestoneCampaign 1)"
    "goalAmount (campaigns milestoneCampaign 1) \<le> amountRaised (campaigns milestoneCampaign 1)"
    by (simp_all add: milestoneCampaign_def entry_points)
  have p: "(0::nat) < 1" by simp
  from milestones_released_in_order[OF reachable_bothReleased p, of 1 carol]
    milestones_released_in_order[OF reachable_milestoneCampaign p, of 1 carol]
    reachable_bothReleased reachable_milestoneCampaign c g p
  show ?thesis by blast
qed

section \<open>Votes\<close>

lemma voted_campaign:
  assumes wf: "wellformed s" and v: "milestoneVotes s c m a"
  shows "exists (campaigns s c)" "m < milestoneCount (campaigns s c)"
    "completed (milestones s c m)" "0 < contributions s c a"
proof -
  from wf_voted[OF wf v] show c: "completed (milestones s c m)"
    and "0 < contributions s c a" by simp_all
  show m: "m < milestoneCount (campaigns s c)"
  proof (rule ccontr)
    assume "\<not> m < milestoneCount (campaigns s c)"
    then have "milestones s c m = zeroMilestone" by (intro wf_range[OF wf]) simp
    with c show False by simp
  qed
  show "exists (campaigns s c)"
  proof (rule ccontr)
    assume "\<not> exists (campaigns s c)"
    then have "campaigns s c = zeroCampaign" by (rule wf_zero[OF wf])
    with m show False by simp
  qed
qed

lemma voteOnMilestone_voted:
  assumes "milestoneVotes s c m a"
  shows "\<exists>e. voteOnMilestone a c m approve s = Inl e"
  using assms by (simp add: voteOnMilestone_def Let_def)

text \<open>
  C6, as stated, fails in its last part: once the milestone has been released, a second
  vote of the same voter reverts with "Milestone already released", which
  \<^verbatim>\<open>voteOnMilestone\<close> checks before "Already voted".
\<close>

theorem second_vote_after_release_counterexample:
  "reachable afterRelease \<and>
   hasVoted 1 0 bob afterRelease \<and>
   voteOnMilestone bob 1 0 True afterRelease = Inl (Revert ''Milestone already released'') \<and>
   voteOnMilestone bob 1 0 True afterRelease \<noteq> Inl (Revert ''Already voted'')"
  using reachable_afterRelease
  by (simp add: hasVoted_def afterRelease_def milestoneCampaign_def entry_points)

text \<open>
  C6, amended.  A vote is cast only by a caller whose contribution is positive, only on a
  milestone that is completed and not released, and only if the caller has no vote recorded
  for it; it records the vote and adds the caller's contribution at that moment to
  \<^verbatim>\<open>votesFor\<close> or to \<^verbatim>\<open>votesAgainst\<close>.  A recorded vote stays recorded through all later
  transactions and every later vote of the same voter on the same milestone reverts: with
  "Already voted" while the milestone is not released, with "Milestone already released"
  afterwards.  Contributions and refunds leave the milestones and the recorded votes as
  they are.
\<close>

theorem one_vote_per_voter:
  assumes "reachable s"
  shows "(\<forall>s'. voteOnMilestone voter c m approve s = Inr s' \<longrightarrow>
            0 < contributions s c voter \<and>
            completed (milestones s c m) \<and> \<not> released (milestones s c m) \<and>
            \<not> milestoneVotes s c m voter \<and> milestoneVotes s' c m voter \<and>
            votesFor (milestones s' c m) =
              votesFor (milestones s c m) + (if approve then contributions s c voter else 0) \<and>
            votesAgainst (milestones s' c m) =
              votesAgainst (milestones s c m) + (if approve then 0 else contributions s c voter)) \<and>
         (milestoneVotes s c m voter \<longrightarrow>
            (\<forall>txs approve2. milestoneVotes (run txs s) c m voter \<and>
               (\<exists>e. voteOnMilestone voter c m approve2 (run txs s) = Inl e)) \<and>
            voteOnMilestone voter c m approve s =
              Inl (Revert (if released (milestones s c m) then ''Milestone already released''
                           else ''Already voted''))) \<and>
         (\<forall>s'. contribute now a v c s = Inr s' \<longrightarrow>
            milestones s' = milestones s \<and> milestoneVotes s' = milestoneVotes s) \<and>
         (\<forall>s'. exec now a (Refund c [] ok) s = Inr s' \<longrightarrow>
            milestones s' = milestones s \<and> milestoneVotes s' = milestoneVotes s)"
proof -
  have wf: "wellformed s" by (rule reachable_wellformed[OF assms])
  have cast: "0 < contributions s c voter \<and>
            completed (milestones s c m) \<and> \<not> released (milestones s c m) \<and>
            \<not> milestoneVotes s c m voter \<and> milestoneVotes s' c m voter \<and>
            votesFor (milestones s' c m) =
              votesFor (milestones s c m) + (if approve then contributions s c voter else 0) \<and>
            votesAgainst (milestones s' c m) =
              votesAgainst (milestones s c m) + (if approve then 0 else contributions s c voter)"
    if "voteOnMilestone voter c m approve s = Inr s'" for s'
    using that by (elim voteOnMilestone_Inr) simp
  have kept: "(\<forall>txs approve2. milestoneVotes (run txs s) c m voter \<and>
               (\<exists>e. voteOnMilestone voter c m approve2 (run txs s) = Inl e)) \<and>
            voteOnMilestone voter c m approve s =
              Inl (Revert (if released (milestones s c m) then ''Milestone already released''
                           else ''Already voted''))"
    if v: "milestoneVotes s c m voter"
  proof (intro conjI allI)
    note f = voted_campaign[OF wf v]
    fix txs approve2
    show r: "milestoneVotes (run txs s) c m voter"
      by (rule evolves_campaign(10)[OF run_evolves(2)[OF wf] f(1) v])
    show "\<exists>e. voteOnMilestone voter c m approve2 (run txs s) = Inl e"
      by (rule voteOnMilestone_voted[OF r])
    show "voteOnMilestone voter c m approve s =
              Inl (Revert (if released (milestones s c m) then ''Milestone already released''
                           else ''Already voted''))"
      using f v by (simp add: voteOnMilestone_def Let_def)
  qed
  have contrib: "milestones s' = milestones s \<and> milestoneVotes s' = milestoneVotes s"
    if "contribute now a v c s = Inr s'" for s'
    using that by (elim contribute_Inr) simp
  have refunded: "milestones s' = milestones s \<and> milestoneVotes s' = milestoneVotes s"
    if "exec now a (Refund c [] ok) s = Inr s'" for s'
  proof -
    from that have "refund (\<lambda>to amt s1. (ok, s1)) now a c s = Inr s'" by simp
    then show ?thesis by (elim refund_Inr) auto
  qed
  from cast kept contrib refunded show ?thesis by blast
qed

theorem one_vote_per_voter_witness:
  "reachable secondCompleted \<and>
   voteOnMilestone bob 1 1 True secondCompleted
     = Inr (run [(6, bob, VoteOnMilestone 1 1 True)] secondCompleted) \<and>
   0 < contributions secondCompleted 1 bob \<and>
   milestoneVotes (run [(6, bob, VoteOnMilestone 1 1 True)] secondCompleted) 1 1 bob \<and>
   votesFor (milestones (run [(6, bob, VoteOnMilestone 1 1 True)] secondCompleted) 1 1) =
     votesFor (milestones secondCompleted 1 1) +
       (if True then contributions secondCompleted 1 bob else 0) \<and>
   contribute 6 alice 1 1 secondCompleted
     = Inr (run [(6, alice, Contribute 1 1)] secondCompleted) \<and>
   milestones (run [(6, alice, Contribute 1 1)] secondCompleted) = milestones secondCompleted \<and>
   reachable milestoneCampaign \<and>
   milestoneVotes milestoneCampaign 1 0 bob \<and>
   milestoneVotes (run [(4, alice, Contribute 1 3)] milestoneCampaign) 1 0 bob \<and>
   voteOnMilestone bob 1 0 False milestoneCampaign =
     Inl (Revert (if released (milestones milestoneCampaign 1 0)
                  then ''Milestone already released'' else ''Already voted'')) \<and>
   \<not> released (milestones milestoneCampaign 1 0) \<and>
   reachable halfFundedCampaign \<and>
   exec 2592000 alice (Refund 1 [] True) halfFundedCampaign = Inr afterRefund \<and>
   milestones afterRefund = milestones halfFundedCampaign"
proof -
  have h1: "voteOnMilestone bob 1 1 True secondCompleted
     = Inr (run [(6, bob, VoteOnMilestone 1 1 True)] secondCompleted)"
    by (simp add: secondCompleted_def afterRelease_def milestoneCampaign_def entry_points)
  have h2: "contribute 6 alice 1 1 secondCompleted
     = Inr (run [(6, alice, Contribute 1 1)] secondCompleted)"
    by (simp add: secondCompleted_def afterRelease_def milestoneCampaign_def entry_points)
  have h3: "milestoneVotes milestoneCampaign 1 0 bob"
    "\<not> released (milestones milestoneCampaign 1 0)"
    by (simp_all add: milestoneCampaign_def entry_points)
  note A = one_vote_per_voter[OF reachable_secondCompleted, of bob 1 1 True 6 alice 1 True]
  note B = one_vote_per_voter[OF reachable_milestoneCampaign, of bob 1 0 False 0 alice 1 True]
  note C = one_vote_per_voter[OF reachable_halfFundedCampaign,
      of bob 1 0 True 2592000 alice 1 True]
  from A h1 have a: "0 < contributions secondCompleted 1 bob"
    "milestoneVotes (run [(6, bob, VoteOnMilestone 1 1 True)] secondCompleted) 1 1 bob"
    "votesFor (milestones (run [(6, bob, VoteOnMilestone 1 1 True)] secondCompleted) 1 1) =
     votesFor (milestones secondCompleted 1 1) +
       (if True then contributions secondCompleted 1 bob else 0)"
    by blast+
  from A h2 have a': "milestones (run [(6, alice, Contribute 1 1)] secondCompleted)
      = milestones secondCompleted"
    by blast
  from B h3(1) have b: "milestoneVotes (run [(4, alice, Contribute 1 3)] milestoneCampaign) 1 0 bob"
    "voteOnMilestone bob 1 0 False milestoneCampaign =
     Inl (Revert (if released (milestones milestoneCampaign 1 0)
                  then ''Milestone already released'' else ''Already voted''))"
    by blast+
  from C refund_succeeds have c: "milestones afterRefund = milestones halfFundedCampaign"
    by blast
  from reachable_secondCompleted reachable_milestoneCampaign reachable_halfFundedCampaign
    refund_succeeds h1 h2 h3 a a' b c
  show ?thesis by blast
qed

section \<open>Validation of the milestone plan\<close>

lemma sumMilestoneAmounts_Inr:
  "sumMilestoneAmounts as acc = Inr tot \<Longrightarrow>
     (\<forall>a\<in>set as. 0 < a) \<and> tot = acc + sum_list as"
proof (induction as arbitrary: acc)
  case Nil
  then show ?case by simp
next
  case (Cons a as)
  from Cons.prems have p: "0 < a" "acc + a < 2 ^ 256"
    and r: "sumMilestoneAmounts as (acc + a) = Inr tot"
    by (auto simp: checked_add_def split: if_splits)
  from Cons.IH[OF r] p show ?case by (simp add: add.assoc)
qed

lemma sumMilestoneAmounts_Inl:
  "sumMilestoneAmounts as acc = Inl e \<Longrightarrow>
     e = Revert ''Milestone amount must be > 0'' \<or> e = Panic \<and> 2 ^ 256 \<le> acc + sum_list as"
proof (induction as arbitrary: acc)
  case Nil
  then show ?case by simp
next
  case (Cons a as)
  show ?case
  proof (cases "0 < a \<and> acc + a < 2 ^ 256")
    case True
    with Cons.prems have "sumMilestoneAmounts as (acc + a) = Inl e"
      by (simp add: checked_add_def)
    from Cons.IH[OF this] show ?thesis by (simp add: add.assoc)
  next
    case False
    with Cons.prems show ?thesis
      by (auto simp: checked_add_def split: if_splits)
  qed
qed

lemma validateMilestones_rejects:
  assumes "ds \<noteq> []"
    and "length ds \<noteq> length as \<or> (\<exists>a\<in>set as. \<not> 0 < a) \<or> sum_list as \<noteq> goal"
  shows "\<exists>e. validateMilestones ds as goal = Inl e \<and>
           (e = Revert ''Milestone arrays must match'' \<or>
            e = Revert ''Milestone amount must be > 0'' \<or>
            e = Revert ''Milestone amounts must equal goal'' \<or>
            e = Panic \<and> 2 ^ 256 \<le> sum_list as)"
proof (cases "length ds = length as")
  case False
  with assms(1) show ?thesis by (simp add: validateMilestones_def)
next
  case True
  show ?thesis
  proof (cases "sumMilestoneAmounts as 0")
    case (Inl e)
    from sumMilestoneAmounts_Inl[OF Inl] Inl assms(1) True show ?thesis
      by (auto simp: validateMilestones_def)
  next
    case (Inr tot)
    from sumMilestoneAmounts_Inr[OF Inr] assms(2) True have "tot \<noteq> goal" by auto
    with Inr assms(1) True show ?thesis by (auto simp: validateMilestones_def)
  qed
qed

text \<open>
  C7, as stated, fails for an empty description list: \<^verbatim>\<open>createCampaign\<close> validates the
  plan only when \<^verbatim>\<open>_milestoneDescriptions\<close> is not empty.  With no descriptions and the
  amounts \<open>[7]\<close>, which neither match the descriptions in length nor sum to the goal 10,
  the campaign is created, with no milestones.
\<close>

theorem amounts_without_descriptions_counterexample:
  "[7::nat] \<noteq> [] \<and>
   length ([] :: string list) \<noteq> length [7::nat] \<and>
   sum_list [7::nat] \<noteq> 10 \<and>
   \<not> isl (createCampaign 0 carol ''Well'' ''Dig a well'' ''Community'' [] 10 30 [] [7] initial) \<and>
   exists (campaigns (run [(0, carol,
       CreateCampaign ''Well'' ''Dig a well'' ''Community'' [] 10 30 [] [7])] initial) 1) \<and>
   milestoneCount (campaigns (run [(0, carol,
       CreateCampaign ''Well'' ''Dig a well'' ''Community'' [] 10 30 [] [7])] initial) 1) = 0"
  by (simp add: entry_points)

text \<open>
  C7, amended.  For every call of \<^verbatim>\<open>createCampaign\<close> with a non-empty description list:
  if the description list and the amount list have unequal lengths, or an amount is not
  positive, or the amounts do not sum to the goal, the call reverts and the storage is as
  before, so that no campaign or milestone record is created.  The error is one of the
  validation messages, or the overflow panic when the amounts sum to \<open>2 ^ 256\<close> or more.
\<close>

theorem invalid_milestone_plan_rejected:
  assumes "ds \<noteq> []"
    and "length ds \<noteq> length as \<or> (\<exists>a\<in>set as. \<not> 0 < a) \<or> sum_list as \<noteq> goal"
  shows "\<exists>e. createCampaign now sender ttl descr cat img goal days ds as s = Inl e \<and>
           (e = Revert ''Goal amount must be greater than 0'' \<or>
            e = Revert ''Duration must be at least 1 day'' \<or>
            e = Revert ''Duration cannot exceed 365 days'' \<or>
            e = Revert ''Title cannot be empty'' \<or>
            e = Revert ''Description cannot be empty'' \<or>
            e = Revert ''Milestone arrays must match'' \<or>
            e = Revert ''Milestone amount must be > 0'' \<or>
            e = Revert ''Milestone amounts must equal goal'' \<or>
            e = Panic \<and> 2 ^ 256 \<le> sum_list as) \<and>
           run [(now, sender, CreateCampaign ttl descr cat img goal days ds as)] s = s"
proof -
  from validateMilestones_rejects[OF assms] obtain e where
    "validateMilestones ds as goal = Inl e"
    "e = Revert ''Milestone arrays must match'' \<or>
     e = Revert ''Milestone amount must be > 0'' \<or>
     e = Revert ''Milestone amounts must equal goal'' \<or>
     e = Panic \<and> 2 ^ 256 \<le> sum_list as" by blast
  then show ?thesis by (auto simp: createCampaign_def)
qed

theorem invalid_milestone_plan_rejected_witness:
  "[''Survey''] \<noteq> [] \<and>
   length [''Survey''] \<noteq> length [4, 6 :: nat] \<and>
   createCampaign 0 carol ''Well'' ''Dig a well'' ''Community'' [] 10 30 [''Survey''] [4, 6]
       initial = Inl (Revert ''Milestone arrays must match'') \<and>
   run [(0, carol, CreateCampaign ''Well'' ''Dig a well'' ''Community'' [] 10 30
          [''Survey''] [4, 6])] initial = initial"
proof -
  have n: "[''Survey''] \<noteq> []" by simp
  have d: "length [''Survey''] \<noteq> length [4, 6 :: nat] \<or> (\<exists>a\<in>set [4, 6 :: nat]. \<not> 0 < a) \<or>
      sum_list [4, 6 :: nat] \<noteq> 10" by simp
  have e: "createCampaign 0 carol ''Well'' ''Dig a well'' ''Community'' [] 10 30
      [''Survey''] [4, 6] initial = Inl (Revert ''Milestone arrays must match'')"
    by (simp add: createCampaign_def validateMilestones_def)
  from invalid_milestone_plan_rejected[OF n d, of 0 carol "''Well''" "''Dig a well''"
      "''Community''" "[]" 30 initial] n e
  show ?thesis by simp
qed

section \<open>Milestone release\<close>

lemma releaseMilestone_exec_Inr:
  assumes wf: "wellformed s"
    and ok: "exec now sender (ReleaseMilestone cid mid cs ok) s = Inr s'"
  shows "released (milestones s' cid mid)"
    "amount (milestones s' cid mid) = amount (milestones s cid mid)"
proof -
  let ?s1 = "s\<lparr> milestones := (milestones s)(cid :=
            (milestones s cid)(mid := (milestones s cid mid)\<lparr> released := True \<rparr>)) \<rparr>"
  let ?e = "[MilestoneReleased cid mid (amount (milestones s cid mid))]"
  from ok have "releaseMilestone (\<lambda>to amt s1. (ok, execs now cs s1)) sender cid mid s = Inr s'"
    by simp
  then obtain s2 where ex: "exists (campaigns s cid)"
    and g: "sender = creator (campaigns s cid)" "mid < milestoneCount (campaigns s cid)"
      "goalAmount (campaigns s cid) \<le> amountRaised (campaigns s cid)"
      "completed (milestones s cid mid)" "\<not> released (milestones s cid mid)"
      "votesAgainst (milestones s cid mid) < votesFor (milestones s cid mid)"
    and s2: "(ok, execs now cs ?s1) = (True, s2)"
    and s': "s' = s2\<lparr> events := events s2 @ ?e \<rparr>"
    by (rule releaseMilestone_Inr)
  have "releaseMilestone accepting sender cid mid s = Inr (?s1\<lparr> events := events ?s1 @ ?e \<rparr>)"
    using ex g by (simp add: releaseMilestone_def accepting_def Let_def)
  from releaseMilestone_step[OF wf this, of now, THEN conjunct1]
  have wf1: "wellformed ?s1" by (simp add: accepting_def evolves_refl)
  have "released (milestones (execs now cs ?s1) cid mid)"
    by (rule evolves_campaign(9)[OF execs_step(2)[OF wf1]]) (simp_all add: ex)
  with s2 show "released (milestones s' cid mid)" by (simp add: s')
  from evolves_campaign(7)[OF exec_step(2)[OF wf ok] ex]
  show "amount (milestones s' cid mid) = amount (milestones s cid mid)" .
qed

text \<open>
  C8.  \<^verbatim>\<open>releaseMilestone\<close> succeeds only when the caller is the creator, the milestone is
  completed and not released and \<^verbatim>\<open>votesFor\<close> is strictly greater than \<^verbatim>\<open>votesAgainst\<close>;
  with equal tallies it reverts.  When it succeeds it has set \<^verbatim>\<open>released\<close> and transferred
  exactly the milestone's amount to the creator, and the milestone is released in the storage
  after the call.
\<close>

theorem releaseMilestone_requires_majority:
  "(releaseMilestone send sender c m s = Inr s' \<longrightarrow>
      sender = creator (campaigns s c) \<and>
      completed (milestones s c m) \<and> \<not> released (milestones s c m) \<and>
      votesAgainst (milestones s c m) < votesFor (milestones s c m) \<and>
      (\<exists>s2. send (creator (campaigns s c)) (amount (milestones s c m))
               (s\<lparr> milestones := (milestones s)(c :=
                     (milestones s c)(m := (milestones s c m)\<lparr> released := True \<rparr>)) \<rparr>)
               = (True, s2) \<and>
            s' = s2\<lparr> events := events s2 @
                   [MilestoneReleased c m (amount (milestones s c m))] \<rparr>)) \<and>
   (votesFor (milestones s c m) = votesAgainst (milestones s c m) \<longrightarrow>
      (\<exists>e. releaseMilestone send sender c m s = Inl e)) \<and>
   (reachable s \<longrightarrow>
      (\<forall>r. exec now sender (ReleaseMilestone c m cs ok) s = Inr r \<longrightarrow>
         released (milestones r c m) \<and>
         amount (milestones r c m) = amount (milestones s c m)))"
proof (intro conjI impI allI)
  assume ok: "releaseMilestone send sender c m s = Inr s'"
  then show "sender = creator (campaigns s c)" "completed (milestones s c m)"
    "\<not> released (milestones s c m)"
    "votesAgainst (milestones s c m) < votesFor (milestones s c m)"
    by (auto elim: releaseMilestone_Inr)
  from ok show "\<exists>s2. send (creator (campaigns s c)) (amount (milestones s c m))
               (s\<lparr> milestones := (milestones s)(c :=
                     (milestones s c)(m := (milestones s c m)\<lparr> released := True \<rparr>)) \<rparr>)
               = (True, s2) \<and>
            s' = s2\<lparr> events := events s2 @
                   [MilestoneReleased c m (amount (milestones s c m))] \<rparr>"
    by (elim releaseMilestone_Inr) blast
next
  assume "votesFor (milestones s c m) = votesAgainst (milestones s c m)"
  then show "\<exists>e. releaseMilestone send sender c m s = Inl e"
    by (simp add: releaseMilestone_def Let_def)
next
  fix r
  assume "reachable s" and ok: "exec now sender (ReleaseMilestone c m cs ok) s = Inr r"
  then have wf: "wellformed s" by (simp add: reachable_wellformed)
  from releaseMilestone_exec_Inr[OF wf ok]
  show "released (milestones r c m)" "amount (milestones r c m) = amount (milestones s c m)"
    by simp_all
qed

theorem releaseMilestone_requires_majority_witness:
  "releaseMilestone accepting carol 1 0 milestoneCampaign = Inr afterRelease \<and>
   carol = creator (campaigns milestoneCampaign 1) \<and>
   votesAgainst (milestones milestoneCampaign 1 0) < votesFor (milestones milestoneCampaign 1 0) \<and>
   votesFor (milestones milestoneCampaign 1 0) = 6 \<and>
   votesAgainst (milestones milestoneCampaign 1 0) = 4 \<and>
   amount (milestones milestoneCampaign 1 0) = 4 \<and>
   reachable milestoneCampaign \<and>
   exec 4 carol (ReleaseMilestone 1 0 [] True) milestoneCampaign = Inr afterRelease \<and>
   released (milestones afterRelease 1 0) \<and>
   votesFor (milestones secondCompleted 1 1) = votesAgainst (milestones secondCompleted 1 1) \<and>
   (\<exists>e. releaseMilestone accepting carol 1 1 secondCompleted = Inl e)"
proof -
  have h: "releaseMilestone accepting carol 1 0 milestoneCampaign = Inr afterRelease"
    using release_succeeds by (simp add: accepting_def[abs_def])
  have v: "votesFor (milestones milestoneCampaign 1 0) = 6"
    "votesAgainst (milestones milestoneCampaign 1 0) = 4"
    "amount (milestones milestoneCampaign 1 0) = 4"
    by (simp_all add: milestoneCampaign_def entry_points)
  have t: "votesFor (milestones secondCompleted 1 1)
      = votesAgainst (milestones secondCompleted 1 1)"
    by (simp add: secondCompleted_def afterRelease_def milestoneCampaign_def entry_points)
  note A = releaseMilestone_requires_majority[of accepting carol 1 0 milestoneCampaign
      afterRelease 4 "[]" True]
  note B = releaseMilestone_requires_majority[of accepting carol 1 1 secondCompleted
      afterRelease 4 "[]" True]
  from A h release_succeeds reachable_milestoneCampaign
  have a: "carol = creator (campaigns milestoneCampaign 1)"
    "votesAgainst (milestones milestoneCampaign 1 0) < votesFor (milestones milestoneCampaign 1 0)"
    "released (milestones afterRelease 1 0)"
    by blast+
  from B t have b: "\<exists>e. releaseMilestone accepting carol 1 1 secondCompleted = Inl e"
    by blast
  from h v t a b release_succeeds reachable_milestoneCampaign show ?thesis by blast
qed

section \<open>The deadline\<close>

text \<open>
  C9, as stated, fails for the milestone path: \<^verbatim>\<open>completeMilestone\<close>,
  \<^verbatim>\<open>voteOnMilestone\<close> and \<^verbatim>\<open>releaseMilestone\<close> do not read the block timestamp.  The
  first milestone of the milestone campaign is completed, approved and released by block
  timestamp 4, long before the deadline 2592000.
\<close>

theorem release_before_deadline_counterexample:
  "reachable milestoneCampaign \<and>
   4 < deadline (campaigns milestoneCampaign 1) \<and>
   exec 4 carol (ReleaseMilestone 1 0 [] True) milestoneCampaign = Inr afterRelease \<and>
   released (milestones afterRelease 1 0) \<and>
   \<not> released (milestones milestoneCampaign 1 0)"
  using reachable_milestoneCampaign release_succeeds
  by (simp add: afterRelease_def milestoneCampaign_def entry_points)

text \<open>
  C9, amended.  Every successful \<^verbatim>\<open>withdrawFunds\<close> and every successful \<^verbatim>\<open>refund\<close>
  happens at or after the deadline.  The milestone path is not gated on the deadline: a
  successful \<^verbatim>\<open>completeMilestone\<close> and a successful \<^verbatim>\<open>releaseMilestone\<close> require the
  goal to be reached, a successful \<^verbatim>\<open>voteOnMilestone\<close> requires a milestone that is
  completed and not released, the outcome of each of the three is the same at every block
  timestamp, and \<^verbatim>\<open>releaseMilestone\<close> does succeed before the deadline: for the milestone
  campaign at block timestamp 4.
\<close>

theorem withdrawal_and_refund_after_deadline:
  "(withdrawFunds send now sender c s = Inr s' \<longrightarrow> deadline (campaigns s c) \<le> now) \<and>
   (refund rsend rnow rsender rc r = Inr r' \<longrightarrow> deadline (campaigns r rc) \<le> rnow) \<and>
   (releaseMilestone msend msender mc mid m = Inr m' \<longrightarrow>
      goalAmount (campaigns m mc) \<le> amountRaised (campaigns m mc) \<and>
      completed (milestones m mc mid)) \<and>
   exec t1 a (ReleaseMilestone k j [] ok) q = exec t2 a (ReleaseMilestone k j [] ok) q \<and>
   (completeMilestone csender cc ci cst = Inr cst' \<longrightarrow>
      goalAmount (campaigns cst cc) \<le> amountRaised (campaigns cst cc)) \<and>
   (voteOnMilestone vsender vc vi vap vst = Inr vst' \<longrightarrow>
      completed (milestones vst vc vi) \<and> \<not> released (milestones vst vc vi)) \<and>
   exec t1 a (CompleteMilestone k j) q = exec t2 a (CompleteMilestone k j) q \<and>
   exec t1 a (VoteOnMilestone k j ap) q = exec t2 a (VoteOnMilestone k j ap) q \<and>
   4 < deadline (campaigns milestoneCampaign 1) \<and>
   exec 4 carol (ReleaseMilestone 1 0 [] True) milestoneCampaign = Inr afterRelease"
proof -
  have active: "4 < deadline (campaigns milestoneCampaign 1)"
    by (simp add: milestoneCampaign_def entry_points)
  have gated: "(withdrawFunds send now sender c s = Inr s' \<longrightarrow> deadline (campaigns s c) \<le> now) \<and>
    (refund rsend rnow rsender rc r = Inr r' \<longrightarrow> deadline (campaigns r rc) \<le> rnow)"
    by (auto elim: withdrawFunds_Inr refund_Inr)
  have path: "(releaseMilestone msend msender mc mid m = Inr m' \<longrightarrow>
      goalAmount (campaigns m mc) \<le> amountRaised (campaigns m mc) \<and>
      completed (milestones m mc mid)) \<and>
    (completeMilestone csender cc ci cst = Inr cst' \<longrightarrow>
      goalAmount (campaigns cst cc) \<le> amountRaised (campaigns cst cc)) \<and>
    (voteOnMilestone vsender vc vi vap vst = Inr vst' \<longrightarrow>
      completed (milestones vst vc vi) \<and> \<not> released (milestones vst vc vi))"
    by (auto elim: releaseMilestone_Inr completeMilestone_Inr voteOnMilestone_Inr)
  have clock: "exec t1 a (ReleaseMilestone k j [] ok) q = exec t2 a (ReleaseMilestone k j [] ok) q"
    "exec t1 a (CompleteMilestone k j) q = exec t2 a (CompleteMilestone k j) q"
    "exec t1 a (VoteOnMilestone k j ap) q = exec t2 a (VoteOnMilestone k j ap) q"
    by simp_all
  from active gated path clock release_succeeds show ?thesis by blast
qed

theorem withdrawal_and_refund_after_deadline_witness:
  "withdrawFunds accepting 2592000 carol 1 fundedCampaign = Inr afterWithdrawal \<and>
   deadline (campaigns fundedCampaign 1) \<le> 2592000 \<and>
   refund accepting 2592000 alice 1 halfFundedCampaign = Inr afterRefund \<and>
   deadline (campaigns halfFundedCampaign 1) \<le> 2592000 \<and>
   releaseMilestone accepting carol 1 0 milestoneCampaign = Inr afterRelease \<and>
   goalAmount (campaigns milestoneCampaign 1) \<le> amountRaised (campaigns milestoneCampaign 1) \<and>
   completed (milestones milestoneCampaign 1 0) \<and>
   exec 4 carol (ReleaseMilestone 1 0 [] True) milestoneCampaign
     = exec 2592000 carol (ReleaseMilestone 1 0 [] True) milestoneCampaign \<and>
   completeMilestone carol 1 1 afterRelease = Inr secondCompleted \<and>
   goalAmount (campaigns afterRelease 1) \<le> amountRaised (campaigns afterRelease 1) \<and>
   voteOnMilestone bob 1 1 True secondCompleted
     = Inr (run [(6, bob, VoteOnMilestone 1 1 True)] secondCompleted) \<and>
   completed (milestones secondCompleted 1 1) \<and>
   \<not> released (milestones secondCompleted 1 1) \<and>
   exec 4 carol (CompleteMilestone 1 0) milestoneCampaign
     = exec 2592000 carol (CompleteMilestone 1 0) milestoneCampaign \<and>
   exec 4 carol (VoteOnMilestone 1 0 True) milestoneCampaign
     = exec 2592000 carol (VoteOnMilestone 1 0 True) milestoneCampaign"
proof -
  have h1: "withdrawFunds accepting 2592000 carol 1 fundedCampaign = Inr afterWithdrawal"
    using withdrawal_succeeds by (simp add: accepting_def[abs_def])
  have h2: "refund accepting 2592000 alice 1 halfFundedCampaign = Inr afterRefund"
    using refund_succeeds by (simp add: accepting_def[abs_def])
  have h3: "releaseMilestone accepting carol 1 0 milestoneCampaign = Inr afterRelease"
    using release_succeeds by (simp add: accepting_def[abs_def])
  have h4: "completeMilestone carol 1 1 afterRelease = Inr secondCompleted"
    by (simp add: secondCompleted_def afterRelease_def milestoneCampaign_def entry_points)
  have h5: "voteOnMilestone bob 1 1 True secondCompleted
     = Inr (run [(6, bob, VoteOnMilestone 1 1 True)] secondCompleted)"
    by (simp add: secondCompleted_def afterRelease_def milestoneCampaign_def entry_points)
  from withdrawal_and_refund_after_deadline[where send = accepting and now = 2592000
      and sender = carol and c = 1 and s = fundedCampaign and s' = afterWithdrawal
      and rsend = accepting and rnow = 2592000 and rsender = alice and rc = 1
      and r = halfFundedCampaign and r' = afterRefund
      and msend = accepting and msender = carol and mc = 1 and mid = 0
      and m = milestoneCampaign and m' = afterRelease
      and ?t1.0 = 4 and ?t2.0 = 2592000 and a = carol and k = 1 and j = 0 and ok = True
      and ap = True and q = milestoneCampaign
      and csender = carol and cc = 1 and ci = 1 and cst = afterRelease
      and cst' = secondCompleted
      and vsender = bob and vc = 1 and vi = 1 and vap = True and vst = secondCompleted
      and vst' = "run [(6, bob, VoteOnMilestone 1 1 True)] secondCompleted"]
    h1 h2 h3 h4 h5
  show ?thesis by blast
qed

section \<open>Reading a milestone\<close>

text \<open>
  C10.  \<^verbatim>\<open>getMilestone\<close> checks neither the campaign nor the index: in every reachable
  storage it returns the zero milestone (empty description, amount 0, not completed, not
  released, no votes) for a campaign that does not exist and for an index at or beyond the
  campaign's \<^verbatim>\<open>milestoneCount\<close>, where \<^verbatim>\<open>getAllMilestones\<close> and \<^verbatim>\<open>getCampaign\<close>
  revert for a campaign that does not exist.
\<close>

theorem getMilestone_unchecked:
  assumes "reachable s"
  shows "(\<not> exists (campaigns s c) \<or> milestoneCount (campaigns s c) \<le> m \<longrightarrow>
            getMilestone c m s = Inr zeroMilestone) \<and>
         (\<not> exists (campaigns s c) \<longrightarrow>
            getAllMilestones c s = Inl (Revert ''Campaign does not exist'') \<and>
            getCampaign c s = Inl (Revert ''Campaign does not exist'')) \<and>
         Milestone.description zeroMilestone = [] \<and> amount zeroMilestone = 0 \<and>
         \<not> completed zeroMilestone \<and> \<not> released zeroMilestone \<and>
         votesFor zeroMilestone = 0 \<and> votesAgainst zeroMilestone = 0"
proof -
  have wf: "wellformed s" by (rule reachable_wellformed[OF assms])
  have "milestones s c m = zeroMilestone"
    if "\<not> exists (campaigns s c) \<or> milestoneCount (campaigns s c) \<le> m"
  proof -
    from that wf_zero[OF wf, of c] have "milestoneCount (campaigns s c) \<le> m" by auto
    then show ?thesis by (rule wf_range[OF wf])
  qed
  then show ?thesis
    by (auto simp: getMilestone_def getAllMilestones_def getCampaign_def zeroMilestone_def)
qed

theorem getMilestone_unchecked_witness:
  "reachable milestoneCampaign \<and>
   \<not> exists (campaigns milestoneCampaign 7) \<and>
   getMilestone 7 0 milestoneCampaign = Inr zeroMilestone \<and>
   getAllMilestones 7 milestoneCampaign = Inl (Revert ''Campaign does not exist'') \<and>
   getCampaign 7 milestoneCampaign = Inl (Revert ''Campaign does not exist'') \<and>
   exists (campaigns milestoneCampaign 1) \<and>
   milestoneCount (campaigns milestoneCampaign 1) \<le> 2 \<and>
   getMilestone 1 2 milestoneCampaign = Inr zeroMilestone"
proof -
  have h: "\<not> exists (campaigns milestoneCampaign 7)" "exists (campaigns milestoneCampaign 1)"
    "milestoneCount (campaigns milestoneCampaign 1) \<le> 2"
    by (simp_all add: milestoneCampaign_def entry_points)
  from getMilestone_unchecked[OF reachable_milestoneCampaign, of 7 0]
    getMilestone_unchecked[OF reachable_milestoneCampaign, of 1 2]
    reachable_milestoneCampaign h
  show ?thesis by blast
qed

end
